theory Spec2Isabelle
  imports Complex_Main "HOL-Library.Sublist"
begin

section \<open>Strings and paths\<close>

text \<open>
  Python strings are modelled as \<open>string\<close>. \<open>str.find\<close> returns the lowest index at
  which the argument occurs, and \<open>-1\<close> when it does not occur.
\<close>

fun find_from :: "string \<Rightarrow> string \<Rightarrow> int \<Rightarrow> int" where
  "find_from [] sub i = (if sub = [] then i else -1)"
| "find_from (c # cs) sub i = (if prefix sub (c # cs) then i else find_from cs sub (i + 1))"

definition str_find :: "string \<Rightarrow> string \<Rightarrow> int" where
  "str_find s sub = find_from s sub 0"

text \<open>\<open>str(n)\<close> for an integer: decimal digits, with a leading minus sign when negative.\<close>

definition digit_char :: "nat \<Rightarrow> char" where
  "digit_char d = ''0123456789'' ! d"

fun str_nat :: "nat \<Rightarrow> string" where
  "str_nat n = (if n < 10 then [digit_char n] else str_nat (n div 10) @ [digit_char (n mod 10)])"

declare str_nat.simps [simp del]

definition str_int :: "int \<Rightarrow> string" where
  "str_int i = (if i < 0 then CHR ''-'' # str_nat (nat (- i)) else str_nat (nat i))"

text \<open>
  A \<open>Path\<close> is the list of its components. \<open>name\<close> is the last component (empty for the
  empty path), \<open>parent\<close> drops it, and \<open>p / n\<close> appends one component.
\<close>

type_synonym path = "string list"

definition path_name :: "path \<Rightarrow> string" where
  "path_name p = (if p = [] then [] else last p)"

definition path_parent :: "path \<Rightarrow> path" where
  "path_parent p = butlast p"

definition path_join :: "path \<Rightarrow> string \<Rightarrow> path" where
  "path_join p n = p @ [n]"

text \<open>
  \<open>Path.suffix\<close>: with \<open>i\<close> the index of the last dot of the name, the suffix is the name
  from \<open>i\<close> on when \<open>0 < i < len(name) - 1\<close>, and empty otherwise.
\<close>

definition path_suffix :: "path \<Rightarrow> string" where
  "path_suffix p =
     (let name = path_name p;
          t = takeWhile (\<lambda>c. c \<noteq> CHR ''.'') (rev name)
      in if length t = length name \<or> length t + 1 = length name \<or> t = []
         then [] else CHR ''.'' # rev t)"

section \<open>Configuration\<close>

text \<open>
  The fields of \<open>BuildAutomatorConfig\<close> that the control loop reads. The checks of
  \<open>is_valid\<close> that look at the file system (project directory, uproject file, svn and
  UAT executables) are answered by the environment of the iteration.
\<close>

record config =
  should_print_configs :: bool
  project_path :: path
  svn_update_interval_in_seconds :: int
  svn_cleanup_timeout_in_seconds :: real
  uat_default_build_name :: string
  uat_build_type :: string
  uat_output :: path
  export_override_zip :: bool
  export_output :: path
  max_num_relevant_logs :: int
  make_dev_build :: string
  ignore_build :: string

definition project_filename :: "config \<Rightarrow> string" where
  "project_filename cfg = path_name (project_path cfg)"

definition all_commands :: "config \<Rightarrow> string list" where
  "all_commands cfg = [make_dev_build cfg, ignore_build cfg]"

definition keywords_valid :: "config \<Rightarrow> bool" where
  "keywords_valid cfg = (make_dev_build cfg \<noteq> [] \<and> ignore_build cfg \<noteq> [])"

section \<open>Log handling\<close>

definition log_find_commands :: "config \<Rightarrow> string \<Rightarrow> string list" where
  "log_find_commands cfg log_text =
     filter (\<lambda>command. str_find log_text command \<noteq> -1) (all_commands cfg)"

section \<open>File system\<close>

text \<open>
  The part of the file system the packaging code looks at: which paths exist, and whether
  as a file or as a directory. File contents are not kept; what is written is recorded in
  the trace. The program runs on Windows only (it imports \<open>winsound\<close> and calls
  \<open>taskkill\<close>), where \<open>Path.rename\<close> raises when the target exists.
\<close>

datatype node = File | Dir

type_synonym fs = "path \<Rightarrow> node option"

definition path_exists :: "fs \<Rightarrow> path \<Rightarrow> bool" where
  "path_exists f p = (f p \<noteq> None)"

definition is_dir :: "fs \<Rightarrow> path \<Rightarrow> bool" where
  "is_dir f p = (f p = Some Dir)"

text \<open>\<open>None\<close> is a raised \<open>OSError\<close>.\<close>

definition write_text :: "fs \<Rightarrow> path \<Rightarrow> fs option" where
  "write_text f p =
     (if is_dir f (path_parent p) \<and> \<not> is_dir f p then Some (f(p \<mapsto> File)) else None)"

definition unlink :: "fs \<Rightarrow> path \<Rightarrow> fs option" where
  "unlink f p = (if f p = Some File then Some (f(p := None)) else None)"

definition rename :: "fs \<Rightarrow> path \<Rightarrow> path \<Rightarrow> fs option" where
  "rename f src dst =
     (if path_exists f src \<and> \<not> path_exists f dst then Some (f(dst := f src, src := None))
      else None)"

section \<open>Events and environment\<close>

text \<open>
  What one iteration does to the outside world is recorded as a trace of events, in the
  order of the calls. Console output is not recorded. The spoken phrases are named rather
  than spelled out. \<open>Run_uat\<close> carries the build type passed to the build tool and
  \<open>Run_7z\<close> the archive path and the source directory; both carry the exit code of the
  process, \<open>None\<close> when the call raised. \<open>Write_text\<close>, \<open>Unlink\<close> and \<open>Rename\<close>
  are recorded when they succeed.
\<close>

datatype sound = Build_starting | Build_success | Build_fail | Build_unknown_error

datatype phrase =
    Starting_to_build
  | Unexpected_build_error
  | Build_has_failed
  | Ignoring_build
  | Build_completed string
  | Cleanup_has_failed

datatype event =
    Sleep int
  | Kill_unreal
  | Svn_cleanup
  | Svn_info
  | Svn_update
  | Svn_log int
  | Message_beep
  | Play sound
  | Say phrase
  | Run_uat string "int option"
  | Write_text path string
  | Unlink path
  | Run_7z path path "int option"
  | Rename path path

text \<open>
  A call that can raise returns \<open>Raised\<close> in place of its value; the exception is caught
  by the handler around the loop body.
\<close>

datatype 'a result = Returned 'a | Raised

text \<open>
  The environment gives the answers of the outside world during one iteration: the clock,
  the configuration file, the svn client, the build tool and the archiver. The
  notification calls, \<open>taskkill\<close> and \<open>svn log\<close> are taken to return normally.
  \<^item> \<open>loaded_config\<close>: \<open>build_automator_load_config()\<close>, \<open>None\<close> when the file is
    missing or does not parse;
  \<^item> \<open>paths_valid\<close>: the file-system checks of \<open>is_valid\<close>;
  \<^item> \<open>cleanup_ok\<close>: \<open>svn cleanup\<close> ran and returned 0;
  \<^item> \<open>revision_before\<close>, \<open>revision_after\<close>, \<open>revision_current\<close>: the three
    \<open>svn info\<close> queries, \<open>None\<close> when the query raises;
  \<^item> \<open>update_ok\<close>: \<open>svn update\<close> returned 0;
  \<^item> \<open>fs_start\<close>: the file system when the iteration first touches it;
  \<^item> \<open>uat_run\<close>: the build tool, from the build type and the file system to the exit
    code (\<open>None\<close> when launching or reading the process raises) and the file system
    left behind;
  \<^item> \<open>sevenz_run\<close>: the archiver, from the archive path, the source directory and the
    file system to the exit code and the file system left behind (\<open>None\<close> when the
    process cannot be launched).
\<close>

record env =
  current_time :: real
  loaded_config :: "config option"
  paths_valid :: "config \<Rightarrow> bool"
  cleanup_ok :: bool
  revision_before :: "int option"
  update_ok :: bool
  revision_after :: "int option"
  revision_current :: "int option"
  svn_log_out :: "int \<Rightarrow> string"
  fs_start :: fs
  uat_run :: "string \<Rightarrow> fs \<Rightarrow> int option \<times> fs"
  sevenz_run :: "path \<Rightarrow> path \<Rightarrow> fs \<Rightarrow> (int \<times> fs) option"

definition is_valid :: "env \<Rightarrow> config \<Rightarrow> bool" where
  "is_valid e cfg = (paths_valid e cfg \<and> keywords_valid cfg)"

section \<open>svn commands\<close>

definition svn_revision :: "int option \<Rightarrow> event list \<times> int result" where
  "svn_revision answer =
     (case answer of None \<Rightarrow> ([Svn_info], Raised) | Some r \<Rightarrow> ([Svn_info], Returned r))"

definition svn_update :: "env \<Rightarrow> event list \<times> bool result" where
  "svn_update e =
     (case svn_revision (revision_before e) of
        (ev1, Raised) \<Rightarrow> (ev1, Raised)
      | (ev1, Returned before_update) \<Rightarrow>
          if \<not> update_ok e then (ev1 @ [Svn_update], Raised)
          else (case svn_revision (revision_after e) of
                  (ev2, Raised) \<Rightarrow> (ev1 @ [Svn_update] @ ev2, Raised)
                | (ev2, Returned after_update) \<Rightarrow>
                    (ev1 @ [Svn_update] @ ev2, Returned (after_update > before_update))))"

section \<open>Build tool\<close>

datatype UnrealBuildResponse = SUCCESS | FAILED | UNEXPECTED_ERROR

definition unreal_build_project :: "env \<Rightarrow> config \<Rightarrow> fs \<Rightarrow> event list \<times> fs \<times> UnrealBuildResponse" where
  "unreal_build_project e cfg f =
     (case uat_run e (uat_build_type cfg) f of
        (None, f') \<Rightarrow> ([Run_uat (uat_build_type cfg) None], f', UNEXPECTED_ERROR)
      | (Some result_code, f') \<Rightarrow>
          if result_code \<noteq> 0 then ([Run_uat (uat_build_type cfg) (Some result_code)], f', FAILED)
          else ([Run_uat (uat_build_type cfg) (Some result_code)], f', SUCCESS))"

section \<open>Directory structuring\<close>

definition compress :: "env \<Rightarrow> fs \<Rightarrow> path \<Rightarrow> path \<Rightarrow> event list \<times> fs \<times> path option result" where
  "compress e f zip_path file_path =
     (case sevenz_run e zip_path file_path f of
        None \<Rightarrow> ([Run_7z zip_path file_path None], f, Raised)
      | Some (code, f') \<Rightarrow> ([Run_7z zip_path file_path (Some code)], f', Returned (Some zip_path)))"

definition compact_file ::
  "env \<Rightarrow> fs \<Rightarrow> path \<Rightarrow> bool \<Rightarrow> string option \<Rightarrow> path option \<Rightarrow> event list \<times> fs \<times> path option result" where
  "compact_file e f file_path should_override new_name output_path =
     (if \<not> path_exists f file_path then ([], f, Returned None)
      else if \<not> is_dir f file_path then ([], f, Returned None)
      else
        let zip_name = (case new_name of
                          None \<Rightarrow> path_name file_path @ ''.zip''
                        | Some n \<Rightarrow> if n \<noteq> [] then n @ ''.zip'' else path_name file_path @ ''.zip'');
            out_path = (case output_path of None \<Rightarrow> path_parent file_path | Some p \<Rightarrow> p);
            zip_path = path_join out_path zip_name
        in if path_exists f zip_path then
             if \<not> should_override then ([], f, Returned (Some zip_path))
             else (case unlink f zip_path of
                     None \<Rightarrow> ([], f, Raised)
                   | Some f1 \<Rightarrow>
                       (case compress e f1 zip_path file_path of
                          (ev, f2, r) \<Rightarrow> (Unlink zip_path # ev, f2, r)))
           else compress e f zip_path file_path)"

definition build_find :: "config \<Rightarrow> path" where
  "build_find cfg = path_join (uat_output cfg) (uat_default_build_name cfg)"

definition final_text :: "string list \<Rightarrow> string" where
  "final_text logs = concat (map (\<lambda>l. l @ [CHR 0x0A, CHR 0x0A]) logs)"

definition build_dump_log_file :: "fs \<Rightarrow> path \<Rightarrow> string list \<Rightarrow> event list \<times> fs \<times> unit result" where
  "build_dump_log_file f dir logs =
     (let log_text_file = path_join dir ''svn_logs.txt''
      in case write_text f log_text_file of
           None \<Rightarrow> ([], f, Raised)
         | Some f' \<Rightarrow> ([Write_text log_text_file (final_text logs)], f', Returned ()))"

definition build_compact :: "env \<Rightarrow> config \<Rightarrow> fs \<Rightarrow> path \<Rightarrow> string \<Rightarrow> event list \<times> fs \<times> unit result" where
  "build_compact e cfg f build new_build_name =
     (let final_build_path = export_output cfg;
          temp_name = new_build_name @ '' TRANSFERING...''
      in case compact_file e f build (export_override_zip cfg) (Some temp_name) (Some final_build_path) of
           (ev, f1, Raised) \<Rightarrow> (ev, f1, Raised)
         | (ev, f1, Returned None) \<Rightarrow> (ev, f1, Returned ())
         | (ev, f1, Returned (Some compacted_file)) \<Rightarrow>
             if path_exists f1 compacted_file then
               let new_name_path =
                     path_join (path_parent compacted_file) (new_build_name @ path_suffix compacted_file)
               in (case rename f1 compacted_file new_name_path of
                     None \<Rightarrow> (ev, f1, Raised)
                   | Some f2 \<Rightarrow> (ev @ [Rename compacted_file new_name_path], f2, Returned ()))
             else (ev, f1, Returned ()))"

section \<open>Main loop\<close>

definition build_name :: "config \<Rightarrow> int \<Rightarrow> string" where
  "build_name cfg revision_num =
     ''['' @ str_int revision_num @ ''] '' @ project_filename cfg @ '' ('' @ uat_build_type cfg @ '')''"

definition build_dump_logs_and_compact ::
  "env \<Rightarrow> config \<Rightarrow> fs \<Rightarrow> string list \<Rightarrow> int \<Rightarrow> event list \<times> fs \<times> bool result" where
  "build_dump_logs_and_compact e cfg f logs revision_num =
     (let ev0 = [Play Build_starting, Say Starting_to_build, Kill_unreal]
      in case unreal_build_project e cfg f of
           (ev1, f1, UNEXPECTED_ERROR) \<Rightarrow>
             (ev0 @ ev1 @ [Play Build_unknown_error, Say Unexpected_build_error], f1, Returned False)
         | (ev1, f1, FAILED) \<Rightarrow>
             (ev0 @ ev1 @ [Play Build_fail, Say Build_has_failed], f1, Returned False)
         | (ev1, f1, SUCCESS) \<Rightarrow>
             let last_build = build_find cfg
             in (case (if length logs > 0 then build_dump_log_file f1 last_build logs
                       else ([], f1, Returned ())) of
                   (ev2, f2, Raised) \<Rightarrow> (ev0 @ ev1 @ ev2, f2, Raised)
                 | (ev2, f2, Returned _) \<Rightarrow>
                     (case build_compact e cfg f2 last_build (build_name cfg revision_num) of
                        (ev3, f3, Raised) \<Rightarrow> (ev0 @ ev1 @ ev2 @ ev3, f3, Raised)
                      | (ev3, f3, Returned _) \<Rightarrow> (ev0 @ ev1 @ ev2 @ ev3, f3, Returned True))))"

text \<open>
  The state the loop carries from one iteration to the next. \<open>-1\<close> stands for an unset
  \<open>last_built_revision\<close> and an unset \<open>last_cleanup_time\<close>, as in the source. Timestamps
  and the cleanup timeout are Python floats; they are compared as real numbers here.
\<close>

record state =
  config :: config
  last_built_revision :: int
  last_cleanup_time :: real

text \<open>How the loop body ends: each \<open>continue\<close>, the end of the body, or the handler.\<close>

datatype ending =
    Config_incomplete
  | Cleanup_failed
  | Build_unsuccessful
  | Body_finished
  | Error_caught

type_synonym outcome = "state \<times> fs \<times> event list \<times> ending"

definition wait :: "config \<Rightarrow> event list" where
  "wait cfg = [Sleep (svn_update_interval_in_seconds cfg)]"

text \<open>
  The reload at the head of the loop body: \<open>None\<close> when there is no valid configuration
  to go on with.
\<close>

definition reload_config :: "env \<Rightarrow> config \<Rightarrow> config option" where
  "reload_config e cfg =
     (case loaded_config e of
        None \<Rightarrow> if \<not> is_valid e cfg then None else Some cfg
      | Some new_config \<Rightarrow>
          if \<not> is_valid e new_config then (if \<not> is_valid e cfg then None else Some cfg)
          else Some new_config)"

definition cleanup_due :: "env \<Rightarrow> state \<Rightarrow> bool" where
  "cleanup_due e st =
     (let cleanup_time_difference =
            (if last_cleanup_time st \<noteq> -1 then current_time e - last_cleanup_time st else 0)
      in last_cleanup_time st = -1
         \<or> cleanup_time_difference \<ge> svn_cleanup_timeout_in_seconds (config st))"

text \<open>
  The revision range of the log collection, \<open>None\<close> when the guard of the collection is
  false and no range is computed.
\<close>

definition revision_range :: "int \<Rightarrow> int \<Rightarrow> int \<Rightarrow> (int \<times> int) option" where
  "revision_range max_logs current_revision last_built =
     (let num_revisions_betwen_last_and_new = max 0 (min max_logs (current_revision - last_built))
      in if max_logs > 0 \<and> num_revisions_betwen_last_and_new > 0
         then Some (current_revision - max 0 (num_revisions_betwen_last_and_new - 1), current_revision)
         else None)"

text \<open>The loop over the found commands; it changes the build type of the held configuration.\<close>

fun run_commands :: "string list \<Rightarrow> config \<Rightarrow> bool \<Rightarrow> config \<times> bool \<times> event list" where
  "run_commands [] cfg ignore = (cfg, ignore, [])"
| "run_commands (command # rest) cfg ignore =
     (if command = make_dev_build cfg
      then run_commands rest (cfg\<lparr>uat_build_type := ''Development''\<rparr>) ignore
      else if command = ignore_build cfg
      then (case run_commands rest cfg True of
              (cfg', ignore', ev) \<Rightarrow> (cfg', ignore', Say Ignoring_build # ev))
      else run_commands rest cfg ignore)"

text \<open>
  Log collection and command evaluation: the configuration afterwards, the collected
  logs, the \<open>ignore_build\<close> flag and the events.
\<close>

definition collect_logs :: "env \<Rightarrow> config \<Rightarrow> int \<Rightarrow> int \<Rightarrow> config \<times> string list \<times> bool \<times> event list" where
  "collect_logs e cfg current_revision last_built =
     (case revision_range (max_num_relevant_logs cfg) current_revision last_built of
        None \<Rightarrow> (cfg, [], False, [])
      | Some (revision_start, revision_end) \<Rightarrow>
          let revisions = [revision_start..revision_end];
              logs = map (svn_log_out e) revisions;
              found_commands = concat (map (log_find_commands cfg) logs)
          in (case run_commands found_commands cfg False of
                (cfg', ignore, ev) \<Rightarrow> (cfg', logs, ignore, map Svn_log revisions @ ev)))"

text \<open>The end of a body that went through: success cue, watermark, wait.\<close>

definition finish :: "state \<Rightarrow> fs \<Rightarrow> event list \<Rightarrow> int \<Rightarrow> outcome" where
  "finish st f ev current_revision =
     (st\<lparr>last_built_revision := current_revision\<rparr>, f,
      ev @ [Play Build_success, Say (Build_completed (uat_build_type (config st)))] @ wait (config st),
      Body_finished)"

text \<open>The body from the detected change on; \<open>st\<close> holds the initialised watermark.\<close>

definition change_dispatch :: "env \<Rightarrow> state \<Rightarrow> event list \<Rightarrow> int \<Rightarrow> outcome" where
  "change_dispatch e st ev current_revision =
     (case collect_logs e (config st) current_revision (last_built_revision st) of
        (cfg, logs, ignore, ev1) \<Rightarrow>
          let st1 = st\<lparr>config := cfg\<rparr>
          in (case (if length logs > 0 then build_dump_log_file (fs_start e) (build_find cfg) logs
                    else ([], fs_start e, Returned ())) of
                (ev2, f2, Raised) \<Rightarrow> (st1, f2, ev @ ev1 @ ev2, Error_caught)
              | (ev2, f2, Returned _) \<Rightarrow>
                  if \<not> ignore then
                    (case build_dump_logs_and_compact e cfg f2 logs (last_built_revision st1) of
                       (ev3, f3, Raised) \<Rightarrow> (st1, f3, ev @ ev1 @ ev2 @ ev3, Error_caught)
                     | (ev3, f3, Returned successful_build) \<Rightarrow>
                         if \<not> successful_build then
                           (st1\<lparr>last_built_revision := current_revision\<rparr>, f3,
                            ev @ ev1 @ ev2 @ ev3 @ wait cfg, Build_unsuccessful)
                         else finish st1 f3 (ev @ ev1 @ ev2 @ ev3) current_revision)
                  else finish st1 f2 (ev @ ev1 @ ev2) current_revision))"

text \<open>The first successful sync sets an unset watermark to the current revision.\<close>

definition init_watermark :: "state \<Rightarrow> int \<Rightarrow> state" where
  "init_watermark st current_revision =
     (if last_built_revision st = -1 then st\<lparr>last_built_revision := current_revision\<rparr>
      else st)"

text \<open>The body from the update on.\<close>

definition sync :: "env \<Rightarrow> state \<Rightarrow> event list \<Rightarrow> outcome" where
  "sync e st ev =
     (case svn_update e of
        (ev1, Raised) \<Rightarrow> (st, fs_start e, ev @ ev1, Error_caught)
      | (ev1, Returned has_revision_changed) \<Rightarrow>
          (case svn_revision (revision_current e) of
             (ev2, Raised) \<Rightarrow> (st, fs_start e, ev @ ev1 @ ev2, Error_caught)
           | (ev2, Returned current_revision) \<Rightarrow>
               let st1 = init_watermark st current_revision
               in if has_revision_changed then change_dispatch e st1 (ev @ ev1 @ ev2) current_revision
                  else (st1, fs_start e, ev @ ev1 @ ev2 @ wait (config st1), Body_finished)))"

text \<open>One pass of the loop body of \<open>_run\<close>.\<close>

definition iteration :: "env \<Rightarrow> state \<Rightarrow> outcome" where
  "iteration e st =
     (case reload_config e (config st) of
        None \<Rightarrow> (st, fs_start e, [Sleep 10], Config_incomplete)
      | Some cfg \<Rightarrow>
          let st1 = st\<lparr>config := cfg\<rparr>
          in if cleanup_due e st1 then
               if cleanup_ok e then sync e (st1\<lparr>last_cleanup_time := current_time e\<rparr>) [Kill_unreal, Svn_cleanup]
               else (st1, fs_start e,
                     [Kill_unreal, Svn_cleanup, Message_beep, Say Cleanup_has_failed] @ wait cfg,
                     Cleanup_failed)
             else sync e st1 [Kill_unreal])"

definition state_of :: "outcome \<Rightarrow> state" where
  "state_of out = fst out"

definition events_of :: "outcome \<Rightarrow> event list" where
  "events_of out = fst (snd (snd out))"

definition ending_of :: "outcome \<Rightarrow> ending" where
  "ending_of out = snd (snd (snd out))"

text \<open>The state the loop starts from; the configuration starts from the defaults.\<close>

definition initial_state :: "config \<Rightarrow> state" where
  "initial_state cfg = \<lparr>config = cfg, last_built_revision = -1, last_cleanup_time = -1\<rparr>"

section \<open>Example configurations and environments\<close>

text \<open>
  The configuration \<open>BuildAutomatorConfig()\<close> starts from (paths stand for their
  resolved form), and a configuration as loaded from a file that names a project.
\<close>

definition default_config :: config where
  "default_config =
     \<lparr>should_print_configs = True, project_path = [],
      svn_update_interval_in_seconds = 1, svn_cleanup_timeout_in_seconds = 3600,
      uat_default_build_name = ''Windows'', uat_build_type = ''Shipping'', uat_output = [''bin''],
      export_override_zip = False, export_output = [''builds''], max_num_relevant_logs = 10,
      make_dev_build = ''#devbuild'', ignore_build = ''#ignorebuild''\<rparr>"

definition game_config :: config where
  "game_config = default_config\<lparr>project_path := [''work'', ''Game''], svn_update_interval_in_seconds := 30\<rparr>"

text \<open>
  A file system with the build output directory and the export directory, and one that
  has the export directory only.
\<close>

definition fs_built :: fs where
  "fs_built = (\<lambda>p. None)([''bin''] \<mapsto> Dir, [''bin'', ''Windows''] \<mapsto> Dir, [''builds''] \<mapsto> Dir)"

definition fs_fresh :: fs where
  "fs_fresh = (\<lambda>p. None)([''builds''] \<mapsto> Dir)"

text \<open>
  An iteration in which the working copy moves from revision 100 to 103, every log reads
  \<open>fix\<close>, the build tool exits with 0 and 7z writes the archive and exits with 0.
\<close>

definition env_103 :: env where
  "env_103 =
     \<lparr>current_time = 5000, loaded_config = Some game_config, paths_valid = (\<lambda>cfg. True),
      cleanup_ok = True, revision_before = Some 100, update_ok = True,
      revision_after = Some 103, revision_current = Some 103,
      svn_log_out = (\<lambda>r. ''fix''), fs_start = fs_built,
      uat_run = (\<lambda>build_type f. (Some 0, f)),
      sevenz_run = (\<lambda>zip_path file_path f. Some (0, f(zip_path \<mapsto> File)))\<rparr>"

definition state_100 :: state where
  "state_100 = \<lparr>config = game_config, last_built_revision = 100, last_cleanup_time = 4000\<rparr>"

text \<open>Variations: the build tool cannot be launched, or exits with 1.\<close>

definition env_uat_raises :: env where
  "env_uat_raises = env_103\<lparr>uat_run := (\<lambda>build_type f. (None, f))\<rparr>"

definition env_uat_fails :: env where
  "env_uat_fails = env_103\<lparr>uat_run := (\<lambda>build_type f. (Some 1, f))\<rparr>"

text \<open>7z exits with 2 (fatal error) and leaves a file at the archive path.\<close>

definition env_7z_error :: env where
  "env_7z_error = env_103\<lparr>sevenz_run := (\<lambda>zip_path file_path f. Some (2, f(zip_path \<mapsto> File)))\<rparr>"

text \<open>
  A file system in which an earlier archive operation has left a file under the temporary
  name of the archive of revision 100.
\<close>

definition fs_stale :: fs where
  "fs_stale = fs_built([''builds'', ''[100] Game (Shipping) TRANSFERING....zip''] \<mapsto> File)"

text \<open>The cleanup is due (5000 seconds after the last one) and fails.\<close>

definition env_cleanup_fails :: env where
  "env_cleanup_fails = env_103\<lparr>current_time := 9000, cleanup_ok := False\<rparr>"

text \<open>
  More variations: the first iteration of a run, in which the working copy moves from
  revision 99 to 100; a log that carries the ignore keyword, with and without the build
  output directory; a configuration whose two keywords are the same string; a log that
  carries the dev-build keyword; and the iteration after revision 103, in which the working
  copy moves to 104, with the configuration file readable and with it missing.
\<close>

definition env_first :: env where
  "env_first = env_103\<lparr>revision_before := Some 99, revision_after := Some 100, revision_current := Some 100\<rparr>"

definition env_ignore :: env where
  "env_ignore = env_103\<lparr>svn_log_out := (\<lambda>r. if r = 102 then ''tidy up #ignorebuild'' else ''fix'')\<rparr>"

definition env_ignore_fresh :: env where
  "env_ignore_fresh = env_ignore\<lparr>fs_start := fs_fresh\<rparr>"

definition skip_config :: config where
  "skip_config = game_config\<lparr>make_dev_build := ''#skip'', ignore_build := ''#skip''\<rparr>"

definition env_skip :: env where
  "env_skip = env_103\<lparr>loaded_config := Some skip_config, svn_log_out := (\<lambda>r. ''tidy up #skip'')\<rparr>"

definition env_dev :: env where
  "env_dev = env_103\<lparr>svn_log_out := (\<lambda>r. if r = 102 then ''try #devbuild'' else ''fix'')\<rparr>"

definition env_104 :: env where
  "env_104 = env_103\<lparr>current_time := 5030, revision_before := Some 103, revision_after := Some 104,
     revision_current := Some 104\<rparr>"

definition env_104_no_config :: env where
  "env_104_no_config = env_104\<lparr>loaded_config := None\<rparr>"

section \<open>Vocabulary of the properties\<close>

text \<open>
  A keyword straddles the boundary between two texts when a proper, non-empty first part
  of it ends the first text and the rest starts the second.
\<close>

definition straddles :: "string \<Rightarrow> string \<Rightarrow> string \<Rightarrow> bool" where
  "straddles k a b = list_ex (\<lambda>n. suffix (take n k) a \<and> prefix (drop n k) b) [1..<length k]"

text \<open>Kinds of events.\<close>

fun is_svn_log :: "event \<Rightarrow> bool" where
  "is_svn_log (Svn_log r) = True"
| "is_svn_log _ = False"

fun is_run_uat :: "event \<Rightarrow> bool" where
  "is_run_uat (Run_uat bt x) = True"
| "is_run_uat _ = False"

fun is_packaging :: "event \<Rightarrow> bool" where
  "is_packaging (Run_7z z s x) = True"
| "is_packaging (Rename a b) = True"
| "is_packaging (Unlink a) = True"
| "is_packaging _ = False"

text \<open>The events that fetch a log, run the build tool or touch an archive.\<close>

fun is_tool_event :: "event \<Rightarrow> bool" where
  "is_tool_event (Svn_log r) = True"
| "is_tool_event (Run_uat bt x) = True"
| "is_tool_event (Run_7z z s x) = True"
| "is_tool_event (Rename a b) = True"
| "is_tool_event (Unlink a) = True"
| "is_tool_event _ = False"

text \<open>The temporary and the final path of the archive of a build name.\<close>

definition temp_zip_path :: "config \<Rightarrow> string \<Rightarrow> path" where
  "temp_zip_path cfg new_build_name = path_join (export_output cfg) (new_build_name @ '' TRANSFERING....zip'')"

definition final_zip_path :: "config \<Rightarrow> string \<Rightarrow> path" where
  "final_zip_path cfg new_build_name = path_join (export_output cfg) (new_build_name @ ''.zip'')"

text \<open>
  The rename step of an archive operation on a file system: a file under the temporary
  name is moved to the final name, which raises when the final name is taken; with no file
  under the temporary name nothing happens. \<open>ev\<close> are the events so far.
\<close>

definition rename_temp :: "config \<Rightarrow> string \<Rightarrow> event list \<Rightarrow> fs \<Rightarrow> event list \<times> fs \<times> unit result" where
  "rename_temp cfg n ev f =
     (if path_exists f (temp_zip_path cfg n) then
        if path_exists f (final_zip_path cfg n) then (ev, f, Raised)
        else (ev @ [Rename (temp_zip_path cfg n) (final_zip_path cfg n)],
              f(final_zip_path cfg n := f (temp_zip_path cfg n), temp_zip_path cfg n := None),
              Returned ())
      else (ev, f, Returned ()))"

text \<open>A packaging event that concerns the archive of the given build name.\<close>

definition archive_event :: "config \<Rightarrow> string \<Rightarrow> event \<Rightarrow> bool" where
  "archive_event cfg new_build_name ev =
     (case ev of
        Unlink p \<Rightarrow> p = temp_zip_path cfg new_build_name
      | Run_7z z s x \<Rightarrow> z = temp_zip_path cfg new_build_name \<and> s = build_find cfg
      | Rename a b \<Rightarrow> a = temp_zip_path cfg new_build_name \<and> b = final_zip_path cfg new_build_name
      | _ \<Rightarrow> False)"

text \<open>The revisions whose logs are collected, and whether a keyword occurs in one of the logs.\<close>

definition collected_revisions :: "config \<Rightarrow> int \<Rightarrow> int \<Rightarrow> int list" where
  "collected_revisions cfg cur wm =
     (case revision_range (max_num_relevant_logs cfg) cur wm of None \<Rightarrow> [] | Some (s, t) \<Rightarrow> [s..t])"

definition found_in_logs :: "env \<Rightarrow> config \<Rightarrow> int \<Rightarrow> int \<Rightarrow> string \<Rightarrow> bool" where
  "found_in_logs e cfg cur wm keyword =
     list_ex (\<lambda>r. sublist keyword (svn_log_out e r)) (collected_revisions cfg cur wm)"

section \<open>Properties\<close>

subsection \<open>String search\<close>

lemma find_from_sublist: "0 \<le> i \<Longrightarrow> (find_from s sub i \<noteq> -1) = sublist sub s"
proof (induction s arbitrary: i)
  case Nil
  then show ?case by auto
next
  case (Cons c cs)
  show ?case
  proof (cases "prefix sub (c # cs)")
    case True
    then have "sublist sub (c # cs)" by (rule prefix_imp_sublist)
    with True Cons.prems show ?thesis by simp
  next
    case False
    from Cons.prems have "0 \<le> i + 1" by simp
    then have "(find_from cs sub (i + 1) \<noteq> -1) = sublist sub cs" by (rule Cons.IH)
    with False show ?thesis by (simp add: sublist_Cons_right)
  qed
qed

lemma str_find_sublist: "(str_find s sub \<noteq> -1) = sublist sub s"
  by (simp add: str_find_def find_from_sublist)

lemma set_log_find_commands:
  "set (log_find_commands cfg l) = {k \<in> set (all_commands cfg). sublist k l}"
  by (auto simp: log_find_commands_def str_find_sublist)

subsection \<open>The steps of the loop body\<close>

lemma run_commands_eq:
  "run_commands cs cfg ig =
     (cfg\<lparr>uat_build_type := (if make_dev_build cfg \<in> set cs then ''Development'' else uat_build_type cfg)\<rparr>,
      ig \<or> (ignore_build cfg \<in> set cs \<and> ignore_build cfg \<noteq> make_dev_build cfg),
      replicate (length (filter (\<lambda>c. c = ignore_build cfg \<and> c \<noteq> make_dev_build cfg) cs)) (Say Ignoring_build))"
proof (induction cs arbitrary: cfg ig)
  case Nil
  then show ?case by simp
next
  case (Cons c cs)
  then show ?case by (cases "c = make_dev_build cfg") (auto simp: Cons.IH)
qed

lemma outcome_simps [simp]:
  "state_of (s, f, ev, x) = s" "events_of (s, f, ev, x) = ev" "ending_of (s, f, ev, x) = x"
  by (simp_all add: state_of_def events_of_def ending_of_def)

lemma sync_cases:
  assumes "filter is_tool_event ev0 = []"
  shows "filter is_tool_event (events_of (sync e s ev0)) = []
     \<or> (\<exists>cur. revision_current e = Some cur
           \<and> sync e s ev0 = change_dispatch e (init_watermark s cur)
                (ev0 @ [Svn_info, Svn_update, Svn_info, Svn_info]) cur)"
  using assms
  by (auto simp: sync_def svn_update_def svn_revision_def wait_def Let_def init_watermark_def
      split: option.splits)

lemma iteration_cases:
  "filter is_tool_event (events_of (iteration e st)) = []
   \<or> (\<exists>st1 ev cur. iteration e st = change_dispatch e st1 ev cur
         \<and> filter is_tool_event ev = []
         \<and> revision_current e = Some cur
         \<and> reload_config e (config st) = Some (config st1)
         \<and> last_built_revision st1 = (if last_built_revision st = -1 then cur else last_built_revision st))"
proof (cases "reload_config e (config st)")
  case None
  then show ?thesis by (simp add: iteration_def)
next
  case (Some cfg)
  define s0 where "s0 = st\<lparr>config := cfg\<rparr>"
  show ?thesis
  proof (cases "cleanup_due e s0 \<and> \<not> cleanup_ok e")
    case True
    with Some show ?thesis by (simp add: iteration_def wait_def Let_def s0_def)
  next
    case False
    define s where "s = (if cleanup_due e s0 then s0\<lparr>last_cleanup_time := current_time e\<rparr> else s0)"
    define ev0 where "ev0 = (if cleanup_due e s0 then [Kill_unreal, Svn_cleanup] else [Kill_unreal])"
    have it: "iteration e st = sync e s ev0"
      using Some False by (simp add: iteration_def Let_def s0_def s_def ev0_def)
    have q: "filter is_tool_event ev0 = []" by (simp add: ev0_def)
    have s: "config s = cfg" "last_built_revision s = last_built_revision st"
      by (simp_all add: s_def s0_def)
    from sync_cases [OF q, of e s] show ?thesis
    proof
      assume "filter is_tool_event (events_of (sync e s ev0)) = []"
      with it show ?thesis by simp
    next
      assume "\<exists>cur. revision_current e = Some cur
           \<and> sync e s ev0 = change_dispatch e (init_watermark s cur)
                (ev0 @ [Svn_info, Svn_update, Svn_info, Svn_info]) cur"
      then obtain cur where cur: "revision_current e = Some cur"
        "sync e s ev0 = change_dispatch e (init_watermark s cur) (ev0 @ [Svn_info, Svn_update, Svn_info, Svn_info]) cur"
        by blast
      have "iteration e st = change_dispatch e (init_watermark s cur) (ev0 @ [Svn_info, Svn_update, Svn_info, Svn_info]) cur
         \<and> filter is_tool_event (ev0 @ [Svn_info, Svn_update, Svn_info, Svn_info]) = []
         \<and> revision_current e = Some cur
         \<and> reload_config e (config st) = Some (config (init_watermark s cur))
         \<and> last_built_revision (init_watermark s cur) = (if last_built_revision st = -1 then cur else last_built_revision st)"
        using it cur q s Some by (simp add: init_watermark_def)
      then show ?thesis by blast
    qed
  qed
qed

lemma path_suffix_zip: "path_suffix (path_join p (x @ '' TRANSFERING....zip'')) = ''.zip''"
  by (simp add: path_suffix_def path_join_def path_name_def Let_def)

lemma path_parent_join: "path_parent (path_join p n) = p"
  by (simp add: path_parent_def path_join_def)

lemma dump_events:
  "filter is_tool_event (fst (build_dump_log_file f d logs)) = []"
  by (simp add: build_dump_log_file_def Let_def split: option.splits)

lemma compact_file_temp:
  "compact_file e f build ov (Some (n @ '' TRANSFERING...'')) (Some out) = (ev, f1, r) \<Longrightarrow>
     (r = Raised \<or> r = Returned None \<or> r = Returned (Some (path_join out (n @ '' TRANSFERING....zip''))))
     \<and> (\<forall>x \<in> set ev. x = Unlink (path_join out (n @ '' TRANSFERING....zip''))
            \<or> (\<exists>c. x = Run_7z (path_join out (n @ '' TRANSFERING....zip'')) build c))"
  by (auto simp: compact_file_def compress_def Let_def split: if_splits option.splits prod.splits)

lemma build_compact_events:
  assumes "x \<in> set (fst (build_compact e cfg f (build_find cfg) n))"
  shows "archive_event cfg n x"
proof -
  obtain ev f1 r where c: "compact_file e f (build_find cfg) (export_override_zip cfg)
      (Some (n @ '' TRANSFERING...'')) (Some (export_output cfg)) = (ev, f1, r)"
    by (cases "compact_file e f (build_find cfg) (export_override_zip cfg)
      (Some (n @ '' TRANSFERING...'')) (Some (export_output cfg))") auto
  note p = compact_file_temp [OF c]
  have ev: "\<forall>x \<in> set ev. archive_event cfg n x"
    using p by (auto simp: archive_event_def temp_zip_path_def)
  from p have "r = Raised \<or> r = Returned None \<or> r = Returned (Some (temp_zip_path cfg n))"
    by (simp add: temp_zip_path_def)
  then show ?thesis
  proof (elim disjE)
    assume "r = Raised"
    with assms c ev show ?thesis by (simp add: build_compact_def Let_def)
  next
    assume "r = Returned None"
    with assms c ev show ?thesis by (simp add: build_compact_def Let_def)
  next
    assume "r = Returned (Some (temp_zip_path cfg n))"
    with assms c ev show ?thesis
      by (auto simp: build_compact_def Let_def temp_zip_path_def final_zip_path_def
          path_suffix_zip path_parent_join archive_event_def split: if_splits option.splits)
  qed
qed

lemma tool_event_kinds:
  "is_run_uat x \<Longrightarrow> is_tool_event x" "is_packaging x \<Longrightarrow> is_tool_event x"
  "is_svn_log x \<Longrightarrow> is_tool_event x"
  by (cases x; simp)+

lemma filter_tool_empty:
  assumes "filter is_tool_event ev = []"
  shows "filter is_run_uat ev = []" "filter is_packaging ev = []" "filter is_svn_log ev = []"
  using assms tool_event_kinds by (auto simp: filter_empty_conv)

lemma bdlc_unexpected:
  assumes "fst (uat_run e (uat_build_type cfg) f) = None"
  shows "build_dump_logs_and_compact e cfg f logs r =
     ([Play Build_starting, Say Starting_to_build, Kill_unreal, Run_uat (uat_build_type cfg) None,
       Play Build_unknown_error, Say Unexpected_build_error],
      snd (uat_run e (uat_build_type cfg) f), Returned False)"
  using assms
  by (cases "uat_run e (uat_build_type cfg) f")
     (simp add: build_dump_logs_and_compact_def unreal_build_project_def)

lemma bdlc_failed:
  assumes "fst (uat_run e (uat_build_type cfg) f) = Some c" and "c \<noteq> 0"
  shows "build_dump_logs_and_compact e cfg f logs r =
     ([Play Build_starting, Say Starting_to_build, Kill_unreal, Run_uat (uat_build_type cfg) (Some c),
       Play Build_fail, Say Build_has_failed],
      snd (uat_run e (uat_build_type cfg) f), Returned False)"
  using assms
  by (cases "uat_run e (uat_build_type cfg) f")
     (simp add: build_dump_logs_and_compact_def unreal_build_project_def)

lemma bdlc_events:
  assumes "x \<in> set (fst (build_dump_logs_and_compact e cfg f logs r))" and "is_tool_event x"
  shows "x = Run_uat (uat_build_type cfg) (fst (uat_run e (uat_build_type cfg) f))
     \<or> archive_event cfg (build_name cfg r) x"
proof -
  obtain code f1 where u: "uat_run e (uat_build_type cfg) f = (code, f1)"
    by (cases "uat_run e (uat_build_type cfg) f") auto
  show ?thesis
  proof (cases "code = Some 0")
    case False
    with assms u show ?thesis
      by (cases code) (auto simp: build_dump_logs_and_compact_def unreal_build_project_def)
  next
    case True
    obtain ev2 f2 r2 where d: "(if length logs > 0 then build_dump_log_file f1 (build_find cfg) logs
                       else ([], f1, Returned ())) = (ev2, f2, r2)"
      by (cases "(if length logs > 0 then build_dump_log_file f1 (build_find cfg) logs
                       else ([], f1, Returned ()))") auto
    have ev2: "filter is_tool_event ev2 = []"
      using d dump_events [of f1 "build_find cfg" logs] by (auto split: if_splits)
    obtain ev3 f3 r3 where b: "build_compact e cfg f2 (build_find cfg) (build_name cfg r) = (ev3, f3, r3)"
      by (cases "build_compact e cfg f2 (build_find cfg) (build_name cfg r)") auto
    have ev3: "\<forall>y \<in> set ev3. archive_event cfg (build_name cfg r) y"
      using build_compact_events [of _ e cfg f2 "build_name cfg r"] b by simp
    from assms(1) have "x \<in> set ([Play Build_starting, Say Starting_to_build, Kill_unreal,
        Run_uat (uat_build_type cfg) (Some 0)] @ ev2 @ ev3)"
      using True u d b
      by (cases r2; cases r3)
         (auto simp: build_dump_logs_and_compact_def unreal_build_project_def Let_def
           simp del: length_greater_0_conv)
    with assms(2) ev2 ev3 True u show ?thesis by (auto simp: filter_empty_conv)
  qed
qed

lemma found_commands_set:
  "k \<in> set (concat (map (log_find_commands cfg) (map (svn_log_out e) rs)))
     = (k \<in> set (all_commands cfg) \<and> list_ex (\<lambda>r. sublist k (svn_log_out e r)) rs)"
  by (auto simp: set_log_find_commands list_ex_iff)

lemma collect_logs_eq:
  "collect_logs e cfg cur wm =
     (cfg\<lparr>uat_build_type := (if found_in_logs e cfg cur wm (make_dev_build cfg) then ''Development''
                              else uat_build_type cfg)\<rparr>,
      map (svn_log_out e) (collected_revisions cfg cur wm),
      found_in_logs e cfg cur wm (ignore_build cfg) \<and> ignore_build cfg \<noteq> make_dev_build cfg,
      map Svn_log (collected_revisions cfg cur wm)
        @ replicate (length (filter (\<lambda>c. c = ignore_build cfg \<and> c \<noteq> make_dev_build cfg)
             (concat (map (log_find_commands cfg) (map (svn_log_out e) (collected_revisions cfg cur wm))))))
            (Say Ignoring_build))"
proof (cases "revision_range (max_num_relevant_logs cfg) cur wm")
  case None
  then show ?thesis
    by (simp add: collect_logs_def collected_revisions_def found_in_logs_def)
next
  case (Some p)
  obtain s t where p: "p = (s, t)" by (cases p)
  have dev: "(make_dev_build cfg \<in> set (concat (map (log_find_commands cfg) (map (svn_log_out e) [s..t]))))
      = list_ex (\<lambda>r. sublist (make_dev_build cfg) (svn_log_out e r)) [s..t]"
    by (subst found_commands_set) (simp add: all_commands_def)
  have ign: "(ignore_build cfg \<in> set (concat (map (log_find_commands cfg) (map (svn_log_out e) [s..t]))))
      = list_ex (\<lambda>r. sublist (ignore_build cfg) (svn_log_out e r)) [s..t]"
    by (subst found_commands_set) (simp add: all_commands_def)
  show ?thesis
    using Some p dev ign
    by (simp add: collect_logs_def collected_revisions_def found_in_logs_def run_commands_eq Let_def
        del: set_concat)
qed

lemma collect_logs_events:
  assumes "collect_logs e cfg0 cur wm = (cfg, logs, ignore, ev1)"
  shows "filter is_run_uat ev1 = []" "filter is_packaging ev1 = []"
    "filter is_svn_log ev1 = map Svn_log (collected_revisions cfg0 cur wm)"
proof -
  have m: "filter is_run_uat (map Svn_log rs) = []" "filter is_packaging (map Svn_log rs) = []"
    "filter is_svn_log (map Svn_log rs) = map Svn_log rs" for rs
    by (induction rs) simp_all
  from assms show "filter is_run_uat ev1 = []" "filter is_packaging ev1 = []"
    "filter is_svn_log ev1 = map Svn_log (collected_revisions cfg0 cur wm)"
    by (auto simp: collect_logs_eq m)
qed

lemma change_dispatch_build:
  assumes "Run_uat bt x \<in> set (events_of (change_dispatch e st ev cur))"
      and "filter is_tool_event ev = []"
  obtains cfg logs ev1 ev2 f2 ev3 f3 r3 where
    "collect_logs e (config st) cur (last_built_revision st) = (cfg, logs, False, ev1)"
    "filter is_tool_event ev2 = []"
    "build_dump_logs_and_compact e cfg f2 logs (last_built_revision st) = (ev3, f3, r3)"
    "bt = uat_build_type cfg" "x = fst (uat_run e bt f2)"
    "change_dispatch e st ev cur =
       (case r3 of
          Raised \<Rightarrow> (st\<lparr>config := cfg\<rparr>, f3, ev @ ev1 @ ev2 @ ev3, Error_caught)
        | Returned ok \<Rightarrow>
            if \<not> ok then (st\<lparr>config := cfg, last_built_revision := cur\<rparr>, f3,
                           ev @ ev1 @ ev2 @ ev3 @ wait cfg, Build_unsuccessful)
            else finish (st\<lparr>config := cfg\<rparr>) f3 (ev @ ev1 @ ev2 @ ev3) cur)"
proof -
  obtain cfg logs ignore ev1 where
    cl: "collect_logs e (config st) cur (last_built_revision st) = (cfg, logs, ignore, ev1)"
    by (cases "collect_logs e (config st) cur (last_built_revision st)") auto
  obtain ev2 f2 r2 where
    d: "(if length logs > 0 then build_dump_log_file (fs_start e) (build_find cfg) logs
         else ([], fs_start e, Returned ())) = (ev2, f2, r2)"
    by (cases "(if length logs > 0 then build_dump_log_file (fs_start e) (build_find cfg) logs
         else ([], fs_start e, Returned ()))") auto
  obtain ev3 f3 r3 where
    b: "build_dump_logs_and_compact e cfg f2 logs (last_built_revision st) = (ev3, f3, r3)"
    by (cases "build_dump_logs_and_compact e cfg f2 logs (last_built_revision st)") auto
  have ev: "Run_uat bt x \<notin> set ev" using assms(2) by (auto simp: filter_empty_conv)
  have ev1: "Run_uat bt x \<notin> set ev1"
    using collect_logs_events(1) [OF cl] by (auto simp: filter_empty_conv)
  have ev2: "filter is_tool_event ev2 = []"
    using d dump_events [of "fs_start e" "build_find cfg" logs] by (auto split: if_splits)
  then have ev2': "Run_uat bt x \<notin> set ev2" by (auto simp: filter_empty_conv)
  have cd: "change_dispatch e st ev cur =
     (case r2 of
        Raised \<Rightarrow> (st\<lparr>config := cfg\<rparr>, f2, ev @ ev1 @ ev2, Error_caught)
      | Returned u \<Rightarrow>
          if \<not> ignore then
            (case r3 of
               Raised \<Rightarrow> (st\<lparr>config := cfg\<rparr>, f3, ev @ ev1 @ ev2 @ ev3, Error_caught)
             | Returned ok \<Rightarrow>
                 if \<not> ok then (st\<lparr>config := cfg, last_built_revision := cur\<rparr>, f3,
                                ev @ ev1 @ ev2 @ ev3 @ wait cfg, Build_unsuccessful)
                 else finish (st\<lparr>config := cfg\<rparr>) f3 (ev @ ev1 @ ev2 @ ev3) cur)
          else finish (st\<lparr>config := cfg\<rparr>) f2 (ev @ ev1 @ ev2) cur)"
    using cl d b by (simp add: change_dispatch_def Let_def split: result.splits del: length_greater_0_conv)
  have r2: "r2 \<noteq> Raised"
    using assms(1) ev ev1 ev2' by (auto simp: cd)
  have ig: "\<not> ignore"
    using assms(1) ev ev1 ev2' r2 by (cases r2) (auto simp: cd finish_def wait_def)
  have cd': "change_dispatch e st ev cur =
            (case r3 of
               Raised \<Rightarrow> (st\<lparr>config := cfg\<rparr>, f3, ev @ ev1 @ ev2 @ ev3, Error_caught)
             | Returned ok \<Rightarrow>
                 if \<not> ok then (st\<lparr>config := cfg, last_built_revision := cur\<rparr>, f3,
                                ev @ ev1 @ ev2 @ ev3 @ wait cfg, Build_unsuccessful)
                 else finish (st\<lparr>config := cfg\<rparr>) f3 (ev @ ev1 @ ev2 @ ev3) cur)"
    using r2 ig by (cases r2) (simp_all add: cd)
  have "Run_uat bt x \<in> set ev3"
    using assms(1) ev ev1 ev2' by (auto simp: cd' finish_def wait_def split: result.splits if_splits)
  then have "Run_uat bt x = Run_uat (uat_build_type cfg) (fst (uat_run e (uat_build_type cfg) f2))
     \<or> archive_event cfg (build_name cfg (last_built_revision st)) (Run_uat bt x)"
    using bdlc_events [of "Run_uat bt x" e cfg f2 logs "last_built_revision st"] b by simp
  then have bt: "bt = uat_build_type cfg" and x: "x = fst (uat_run e bt f2)"
    by (simp_all add: archive_event_def)
  from cl ig have cl': "collect_logs e (config st) cur (last_built_revision st) = (cfg, logs, False, ev1)"
    by simp
  show thesis by (rule that [OF cl' ev2 b bt x cd'])
qed

subsection \<open>Evaluation of the examples\<close>

lemmas model_defs =
  iteration_def sync_def init_watermark_def change_dispatch_def finish_def collect_logs_def
  revision_range_def cleanup_due_def reload_config_def wait_def is_valid_def keywords_valid_def
  svn_update_def svn_revision_def build_dump_logs_and_compact_def unreal_build_project_def
  build_compact_def compact_file_def compress_def build_dump_log_file_def build_find_def
  build_name_def project_filename_def final_text_def
  path_name_def path_parent_def path_join_def path_suffix_def
  write_text_def unlink_def rename_def path_exists_def is_dir_def
  log_find_commands_def all_commands_def str_find_def str_int_def str_nat.simps digit_char_def
  temp_zip_path_def final_zip_path_def Let_def upto.simps

lemmas example_defs =
  default_config_def game_config_def fs_built_def fs_fresh_def env_103_def state_100_def
  initial_state_def env_uat_raises_def env_uat_fails_def env_7z_error_def env_cleanup_fails_def
  env_first_def env_ignore_def env_ignore_fresh_def skip_config_def env_skip_def env_dev_def
  env_104_def env_104_no_config_def fs_stale_def

lemma uat_raises_events:
  "events_of (iteration env_uat_raises state_100) =
     [Kill_unreal, Svn_info, Svn_update, Svn_info, Svn_info, Svn_log 101, Svn_log 102, Svn_log 103,
      Write_text [''bin'', ''Windows'', ''svn_logs.txt'']
        (final_text [''fix'', ''fix'', ''fix'']),
      Play Build_starting, Say Starting_to_build, Kill_unreal, Run_uat ''Shipping'' None,
      Play Build_unknown_error, Say Unexpected_build_error, Sleep 30]"
  by (simp add: model_defs example_defs)

lemma uat_raises_watermark:
  "last_built_revision (state_of (iteration env_uat_raises state_100)) = 103"
  by (simp add: model_defs example_defs)

lemma uat_fails_events:
  "events_of (iteration env_uat_fails state_100) =
     [Kill_unreal, Svn_info, Svn_update, Svn_info, Svn_info, Svn_log 101, Svn_log 102, Svn_log 103,
      Write_text [''bin'', ''Windows'', ''svn_logs.txt'']
        (final_text [''fix'', ''fix'', ''fix'']),
      Play Build_starting, Say Starting_to_build, Kill_unreal, Run_uat ''Shipping'' (Some 1),
      Play Build_fail, Say Build_has_failed, Sleep 30]"
  by (simp add: model_defs example_defs)

lemma uat_fails_watermark:
  "last_built_revision (state_of (iteration env_uat_fails state_100)) = 103"
  by (simp add: model_defs example_defs)

subsection \<open>Unsuccessful builds\<close>

lemma iteration_build:
  assumes "Run_uat bt x \<in> set (events_of (iteration e st))"
  obtains st1 ev cur where
    "iteration e st = change_dispatch e st1 ev cur"
    "filter is_tool_event ev = []"
    "revision_current e = Some cur"
    "reload_config e (config st) = Some (config st1)"
    "last_built_revision st1 = last_built_revision (init_watermark st cur)"
    "Run_uat bt x \<in> set (events_of (change_dispatch e st1 ev cur))"
proof -
  have "\<exists>y \<in> set (events_of (iteration e st)). is_tool_event y"
    using assms by (rule bexI [rotated]) simp
  then have "filter is_tool_event (events_of (iteration e st)) \<noteq> []"
    by (simp add: filter_empty_conv)
  with iteration_cases [of e st] obtain st1 ev cur where
    *: "iteration e st = change_dispatch e st1 ev cur"
    "filter is_tool_event ev = []"
    "revision_current e = Some cur"
    "reload_config e (config st) = Some (config st1)"
    "last_built_revision st1 = (if last_built_revision st = -1 then cur else last_built_revision st)"
    by blast
  from *(5) have 5: "last_built_revision st1 = last_built_revision (init_watermark st cur)"
    by (simp add: init_watermark_def)
  from assms *(1) have 6: "Run_uat bt x \<in> set (events_of (change_dispatch e st1 ev cur))" by simp
  show thesis by (rule that [OF *(1) *(2) *(3) *(4) 5 6])
qed

text \<open>
  C1 (as amended). In every iteration in which the build is attempted and the build tool
  cannot be launched or read (\<open>UNEXPECTED_ERROR\<close>), the unknown-error cue is played, the
  body ends through the branch of the unsuccessful build, and the watermark is set to the
  current revision, as after a failed build.
\<close>

theorem unexpected_error_advances_watermark:
  assumes "Run_uat bt None \<in> set (events_of (iteration e st))"
  shows "revision_current e = Some (last_built_revision (state_of (iteration e st)))
     \<and> Play Build_unknown_error \<in> set (events_of (iteration e st))
     \<and> ending_of (iteration e st) = Build_unsuccessful"
proof -
  from assms obtain st1 ev cur where it: "iteration e st = change_dispatch e st1 ev cur"
    and ev: "filter is_tool_event ev = []" and cur: "revision_current e = Some cur"
    and u: "Run_uat bt None \<in> set (events_of (change_dispatch e st1 ev cur))"
    by (rule iteration_build)
  from u ev obtain cfg logs ev1 ev2 f2 ev3 f3 r3 where
    b: "build_dump_logs_and_compact e cfg f2 logs (last_built_revision st1) = (ev3, f3, r3)"
    and bt: "bt = uat_build_type cfg" and x: "None = fst (uat_run e bt f2)"
    and cd: "change_dispatch e st1 ev cur =
       (case r3 of
          Raised \<Rightarrow> (st1\<lparr>config := cfg\<rparr>, f3, ev @ ev1 @ ev2 @ ev3, Error_caught)
        | Returned ok \<Rightarrow>
            if \<not> ok then (st1\<lparr>config := cfg, last_built_revision := cur\<rparr>, f3,
                           ev @ ev1 @ ev2 @ ev3 @ wait cfg, Build_unsuccessful)
            else finish (st1\<lparr>config := cfg\<rparr>) f3 (ev @ ev1 @ ev2 @ ev3) cur)"
    by (rule change_dispatch_build)
  from x bt have "fst (uat_run e (uat_build_type cfg) f2) = None" by simp
  from bdlc_unexpected [OF this, of logs "last_built_revision st1"] b
  have "r3 = Returned False" "Play Build_unknown_error \<in> set ev3" by auto
  with cd it cur show ?thesis by simp
qed

theorem unexpected_error_advances_watermark_witness:
  "Run_uat ''Shipping'' None \<in> set (events_of (iteration env_uat_raises state_100))
   \<and> revision_current env_uat_raises = Some (last_built_revision (state_of (iteration env_uat_raises state_100)))
   \<and> Play Build_unknown_error \<in> set (events_of (iteration env_uat_raises state_100))
   \<and> ending_of (iteration env_uat_raises state_100) = Build_unsuccessful"
proof -
  have h: "Run_uat ''Shipping'' None \<in> set (events_of (iteration env_uat_raises state_100))"
    by (simp add: uat_raises_events)
  from unexpected_error_advances_watermark [OF h] h show ?thesis by simp
qed

text \<open>
  C1 as stated fails: the build tool raises while the working copy has moved from
  revision 100 to 103, and the iteration moves the watermark from 100 to 103.
\<close>

theorem unexpected_error_counterexample:
  "Run_uat ''Shipping'' None \<in> set (events_of (iteration env_uat_raises state_100))
   \<and> last_built_revision state_100 = 100
   \<and> last_built_revision (state_of (iteration env_uat_raises state_100)) = 103"
  by (simp add: uat_raises_events uat_raises_watermark) (simp add: state_100_def)

text \<open>
  C7. In every iteration in which the build process exits with a non-zero code, the
  build step answers \<open>FAILED\<close>, the fail cue is played, no archive is produced (the trace
  has no 7z run, no rename and no unlink), the watermark is set to the current revision,
  and the body ends through the branch of the unsuccessful build.
\<close>

theorem failed_build_advances_watermark:
  assumes "Run_uat bt (Some c) \<in> set (events_of (iteration e st))" and "c \<noteq> 0"
  shows "(\<exists>cfg f. unreal_build_project e cfg f = ([Run_uat bt (Some c)], snd (uat_run e bt f), FAILED))
     \<and> Play Build_fail \<in> set (events_of (iteration e st))
     \<and> filter is_packaging (events_of (iteration e st)) = []
     \<and> revision_current e = Some (last_built_revision (state_of (iteration e st)))
     \<and> ending_of (iteration e st) = Build_unsuccessful"
proof -
  from assms(1) obtain st1 ev cur where it: "iteration e st = change_dispatch e st1 ev cur"
    and ev: "filter is_tool_event ev = []" and cur: "revision_current e = Some cur"
    and u: "Run_uat bt (Some c) \<in> set (events_of (change_dispatch e st1 ev cur))"
    by (rule iteration_build)
  from u ev obtain cfg logs ev1 ev2 f2 ev3 f3 r3 where
    cl: "collect_logs e (config st1) cur (last_built_revision st1) = (cfg, logs, False, ev1)"
    and ev2: "filter is_tool_event ev2 = []"
    and b: "build_dump_logs_and_compact e cfg f2 logs (last_built_revision st1) = (ev3, f3, r3)"
    and bt: "bt = uat_build_type cfg" and x: "Some c = fst (uat_run e bt f2)"
    and cd: "change_dispatch e st1 ev cur =
       (case r3 of
          Raised \<Rightarrow> (st1\<lparr>config := cfg\<rparr>, f3, ev @ ev1 @ ev2 @ ev3, Error_caught)
        | Returned ok \<Rightarrow>
            if \<not> ok then (st1\<lparr>config := cfg, last_built_revision := cur\<rparr>, f3,
                           ev @ ev1 @ ev2 @ ev3 @ wait cfg, Build_unsuccessful)
            else finish (st1\<lparr>config := cfg\<rparr>) f3 (ev @ ev1 @ ev2 @ ev3) cur)"
    by (rule change_dispatch_build)
  from x bt have f: "fst (uat_run e (uat_build_type cfg) f2) = Some c" by simp
  from bdlc_failed [OF f assms(2), of logs "last_built_revision st1"] b
  have r3: "r3 = Returned False" and ev3: "Play Build_fail \<in> set ev3" "filter is_packaging ev3 = []"
    by auto
  have "unreal_build_project e cfg f2 = ([Run_uat bt (Some c)], snd (uat_run e bt f2), FAILED)"
    using f bt assms(2)
    by (cases "uat_run e (uat_build_type cfg) f2") (simp add: unreal_build_project_def)
  then have 1: "\<exists>cfg f. unreal_build_project e cfg f = ([Run_uat bt (Some c)], snd (uat_run e bt f), FAILED)"
    by blast
  have "filter is_packaging (ev @ ev1 @ ev2 @ ev3 @ wait cfg) = []"
    using filter_tool_empty(2) [OF ev] filter_tool_empty(2) [OF ev2] collect_logs_events(2) [OF cl] ev3
    by (simp add: wait_def)
  with 1 r3 ev3 cd it cur show ?thesis by simp
qed

theorem failed_build_advances_watermark_witness:
  "Run_uat ''Shipping'' (Some 1) \<in> set (events_of (iteration env_uat_fails state_100))
   \<and> (1::int) \<noteq> 0
   \<and> Play Build_fail \<in> set (events_of (iteration env_uat_fails state_100))
   \<and> filter is_packaging (events_of (iteration env_uat_fails state_100)) = []
   \<and> last_built_revision (state_of (iteration env_uat_fails state_100)) = 103
   \<and> ending_of (iteration env_uat_fails state_100) = Build_unsuccessful"
proof -
  have h: "Run_uat ''Shipping'' (Some 1) \<in> set (events_of (iteration env_uat_fails state_100))"
    by (simp add: uat_fails_events)
  have n: "(1::int) \<noteq> 0" by simp
  from failed_build_advances_watermark [OF h n] h show ?thesis
    by (simp add: uat_fails_watermark)
qed

subsection \<open>Cleanup failure\<close>

text \<open>
  C9. In every iteration in which the cleanup runs (a configuration is in effect and the
  cleanup is due) and fails, the alert beep and the spoken message are emitted and the
  body ends with the wait: there is no svn update and no build in the trace, and the
  watermark and the time of the last cleanup are as before the iteration.
\<close>

theorem cleanup_failure_skips_iteration:
  assumes "reload_config e (config st) = Some cfg"
      and "cleanup_due e (st\<lparr>config := cfg\<rparr>)"
      and "\<not> cleanup_ok e"
  shows "events_of (iteration e st) =
       [Kill_unreal, Svn_cleanup, Message_beep, Say Cleanup_has_failed,
        Sleep (svn_update_interval_in_seconds cfg)]
     \<and> last_built_revision (state_of (iteration e st)) = last_built_revision st
     \<and> last_cleanup_time (state_of (iteration e st)) = last_cleanup_time st
     \<and> ending_of (iteration e st) = Cleanup_failed"
  using assms by (simp add: iteration_def wait_def)

theorem cleanup_failure_skips_iteration_witness:
  "reload_config env_cleanup_fails (config state_100) = Some game_config
   \<and> cleanup_due env_cleanup_fails (state_100\<lparr>config := game_config\<rparr>)
   \<and> \<not> cleanup_ok env_cleanup_fails
   \<and> events_of (iteration env_cleanup_fails state_100) =
       [Kill_unreal, Svn_cleanup, Message_beep, Say Cleanup_has_failed, Sleep 30]
   \<and> last_built_revision (state_of (iteration env_cleanup_fails state_100)) = 100
   \<and> last_cleanup_time (state_of (iteration env_cleanup_fails state_100)) = 4000
   \<and> ending_of (iteration env_cleanup_fails state_100) = Cleanup_failed"
proof -
  have h1: "reload_config env_cleanup_fails (config state_100) = Some game_config"
    by (simp add: reload_config_def is_valid_def keywords_valid_def example_defs)
  have h2: "cleanup_due env_cleanup_fails (state_100\<lparr>config := game_config\<rparr>)"
    by (simp add: cleanup_due_def example_defs)
  have h3: "\<not> cleanup_ok env_cleanup_fails"
    by (simp add: example_defs)
  from cleanup_failure_skips_iteration [OF h1 h2 h3] h1 h2 h3 show ?thesis
    by (simp add: example_defs)
qed

subsection \<open>Archiving\<close>

text \<open>
  C8. Archiving without override is idempotent: when a call has returned an archive path,
  the archive exists afterwards and the source is still a directory, a second call with
  the same arguments returns the same path, leaves the file system as it is and has no
  event: it neither deletes the archive nor runs 7z again.
\<close>

theorem compact_file_idempotent:
  assumes "compact_file e f file_path False new_name output_path = (ev, f1, Returned (Some z))"
      and "path_exists f1 z"
      and "is_dir f1 file_path"
  shows "compact_file e' f1 file_path False new_name output_path = ([], f1, Returned (Some z))"
  using assms
  by (auto simp: compact_file_def compress_def Let_def is_dir_def path_exists_def
      split: if_splits option.splits prod.splits)

theorem compact_file_idempotent_witness:
  "compact_file env_103 fs_built [''bin'', ''Windows''] False (Some ''[100] Game'') (Some [''builds''])
     = ([Run_7z [''builds'', ''[100] Game.zip''] [''bin'', ''Windows''] (Some 0)],
        fs_built([''builds'', ''[100] Game.zip''] \<mapsto> File),
        Returned (Some [''builds'', ''[100] Game.zip'']))
   \<and> path_exists (fs_built([''builds'', ''[100] Game.zip''] \<mapsto> File)) [''builds'', ''[100] Game.zip'']
   \<and> is_dir (fs_built([''builds'', ''[100] Game.zip''] \<mapsto> File)) [''bin'', ''Windows'']
   \<and> compact_file env_7z_error (fs_built([''builds'', ''[100] Game.zip''] \<mapsto> File))
        [''bin'', ''Windows''] False (Some ''[100] Game'') (Some [''builds''])
     = ([], fs_built([''builds'', ''[100] Game.zip''] \<mapsto> File),
        Returned (Some [''builds'', ''[100] Game.zip'']))"
proof -
  have h1: "compact_file env_103 fs_built [''bin'', ''Windows''] False (Some ''[100] Game'') (Some [''builds''])
     = ([Run_7z [''builds'', ''[100] Game.zip''] [''bin'', ''Windows''] (Some 0)],
        fs_built([''builds'', ''[100] Game.zip''] \<mapsto> File),
        Returned (Some [''builds'', ''[100] Game.zip'']))"
    by (simp add: compact_file_def compress_def path_join_def path_exists_def is_dir_def
        fs_built_def env_103_def Let_def)
  have h2: "path_exists (fs_built([''builds'', ''[100] Game.zip''] \<mapsto> File)) [''builds'', ''[100] Game.zip'']"
    by (simp add: path_exists_def)
  have h3: "is_dir (fs_built([''builds'', ''[100] Game.zip''] \<mapsto> File)) [''bin'', ''Windows'']"
    by (simp add: is_dir_def fs_built_def)
  from compact_file_idempotent [OF h1 h2 h3, of env_7z_error] h1 h2 h3 show ?thesis by simp
qed

text \<open>
  C4 (as amended). Every archive operation does the following. When the build directory
  is missing, nothing is archived and nothing is renamed. Otherwise the archive is written
  by 7z under the temporary name, with two provisions for a file that is already under
  the temporary name: without override it is kept and 7z is not run, and with override it
  is deleted before 7z runs. After that the file under the temporary name, if there is
  one, is renamed to the final name, which raises when the final name is taken. The exit
  code of 7z is recorded in the trace and plays no part in any of these decisions.
\<close>

theorem build_compact_ignores_exit_code:
  "build_compact e cfg f build n =
     (if \<not> is_dir f build then ([], f, Returned ())
      else if path_exists f (temp_zip_path cfg n) then
        if \<not> export_override_zip cfg then rename_temp cfg n [] f
        else (case unlink f (temp_zip_path cfg n) of
                None \<Rightarrow> ([], f, Raised)
              | Some f1 \<Rightarrow>
                  (case sevenz_run e (temp_zip_path cfg n) build f1 of
                     None \<Rightarrow>
                       ([Unlink (temp_zip_path cfg n), Run_7z (temp_zip_path cfg n) build None],
                        f1, Raised)
                   | Some (code, f') \<Rightarrow>
                       rename_temp cfg n
                         [Unlink (temp_zip_path cfg n),
                          Run_7z (temp_zip_path cfg n) build (Some code)] f'))
      else (case sevenz_run e (temp_zip_path cfg n) build f of
              None \<Rightarrow> ([Run_7z (temp_zip_path cfg n) build None], f, Raised)
            | Some (code, f') \<Rightarrow>
                rename_temp cfg n [Run_7z (temp_zip_path cfg n) build (Some code)] f'))"
  by (auto simp: build_compact_def compact_file_def compress_def Let_def temp_zip_path_def
      final_zip_path_def path_suffix_zip path_parent_join rename_def rename_temp_def is_dir_def
      path_exists_def split: option.splits)

theorem build_compact_ignores_exit_code_witness:
  "fst (build_compact env_103 game_config fs_built [''bin'', ''Windows''] ''[100] Game (Shipping)'')
     = [Run_7z [''builds'', ''[100] Game (Shipping) TRANSFERING....zip''] [''bin'', ''Windows''] (Some 0),
        Rename [''builds'', ''[100] Game (Shipping) TRANSFERING....zip'']
               [''builds'', ''[100] Game (Shipping).zip'']]"
  using build_compact_ignores_exit_code
    [of env_103 game_config fs_built "[''bin'', ''Windows'']" "''[100] Game (Shipping)''"]
  by (simp add: rename_temp_def is_dir_def path_exists_def temp_zip_path_def final_zip_path_def
      path_join_def example_defs)

text \<open>
  C4 as stated fails in two ways. 7z exits with 2 and leaves a file under the temporary
  name, and the file is renamed to the final name. And without override a file left under
  the temporary name by an earlier operation is renamed to the final name with no 7z run
  at all.
\<close>

theorem build_compact_counterexample:
  "fst (build_compact env_7z_error game_config fs_built [''bin'', ''Windows''] ''[100] Game (Shipping)'')
     = [Run_7z [''builds'', ''[100] Game (Shipping) TRANSFERING....zip''] [''bin'', ''Windows''] (Some 2),
        Rename [''builds'', ''[100] Game (Shipping) TRANSFERING....zip'']
               [''builds'', ''[100] Game (Shipping).zip'']]
   \<and> export_override_zip game_config = False
   \<and> fst (build_compact env_103 game_config fs_stale [''bin'', ''Windows''] ''[100] Game (Shipping)'')
     = [Rename [''builds'', ''[100] Game (Shipping) TRANSFERING....zip'']
               [''builds'', ''[100] Game (Shipping).zip'']]"
  by (simp add: model_defs example_defs)

subsection \<open>Revision range and log collection\<close>

lemma bdlc_no_svn_log:
  "filter is_svn_log (fst (build_dump_logs_and_compact e cfg f logs r)) = []"
proof -
  have "\<not> is_svn_log x" if "x \<in> set (fst (build_dump_logs_and_compact e cfg f logs r))" for x
  proof
    assume l: "is_svn_log x"
    then have "is_tool_event x" by (rule tool_event_kinds)
    from bdlc_events [OF that this] l show False
      by (cases x) (simp_all add: archive_event_def)
  qed
  then show ?thesis by (simp add: filter_empty_conv)
qed

lemma change_dispatch_unfold:
  obtains cfg logs ignore ev1 ev2 f2 and r2 :: "unit result" and ev3 f3 r3 where
    "collect_logs e (config st) cur (last_built_revision st) = (cfg, logs, ignore, ev1)"
    "filter is_tool_event ev2 = []"
    "build_dump_logs_and_compact e cfg f2 logs (last_built_revision st) = (ev3, f3, r3)"
    "change_dispatch e st ev cur =
     (case r2 of
        Raised \<Rightarrow> (st\<lparr>config := cfg\<rparr>, f2, ev @ ev1 @ ev2, Error_caught)
      | Returned u \<Rightarrow>
          if \<not> ignore then
            (case r3 of
               Raised \<Rightarrow> (st\<lparr>config := cfg\<rparr>, f3, ev @ ev1 @ ev2 @ ev3, Error_caught)
             | Returned ok \<Rightarrow>
                 if \<not> ok then (st\<lparr>config := cfg, last_built_revision := cur\<rparr>, f3,
                                ev @ ev1 @ ev2 @ ev3 @ wait cfg, Build_unsuccessful)
                 else finish (st\<lparr>config := cfg\<rparr>) f3 (ev @ ev1 @ ev2 @ ev3) cur)
          else finish (st\<lparr>config := cfg\<rparr>) f2 (ev @ ev1 @ ev2) cur)"
proof -
  obtain cfg logs ignore ev1 where
    cl: "collect_logs e (config st) cur (last_built_revision st) = (cfg, logs, ignore, ev1)"
    by (cases "collect_logs e (config st) cur (last_built_revision st)") auto
  obtain ev2 f2 r2 where
    d: "(if length logs > 0 then build_dump_log_file (fs_start e) (build_find cfg) logs
         else ([], fs_start e, Returned ())) = (ev2, f2, r2)"
    by (cases "(if length logs > 0 then build_dump_log_file (fs_start e) (build_find cfg) logs
         else ([], fs_start e, Returned ()))") auto
  obtain ev3 f3 r3 where
    b: "build_dump_logs_and_compact e cfg f2 logs (last_built_revision st) = (ev3, f3, r3)"
    by (cases "build_dump_logs_and_compact e cfg f2 logs (last_built_revision st)") auto
  have ev2: "filter is_tool_event ev2 = []"
    using d dump_events [of "fs_start e" "build_find cfg" logs] by (auto split: if_splits)
  have cd: "change_dispatch e st ev cur =
     (case r2 of
        Raised \<Rightarrow> (st\<lparr>config := cfg\<rparr>, f2, ev @ ev1 @ ev2, Error_caught)
      | Returned u \<Rightarrow>
          if \<not> ignore then
            (case r3 of
               Raised \<Rightarrow> (st\<lparr>config := cfg\<rparr>, f3, ev @ ev1 @ ev2 @ ev3, Error_caught)
             | Returned ok \<Rightarrow>
                 if \<not> ok then (st\<lparr>config := cfg, last_built_revision := cur\<rparr>, f3,
                                ev @ ev1 @ ev2 @ ev3 @ wait cfg, Build_unsuccessful)
                 else finish (st\<lparr>config := cfg\<rparr>) f3 (ev @ ev1 @ ev2 @ ev3) cur)
          else finish (st\<lparr>config := cfg\<rparr>) f2 (ev @ ev1 @ ev2) cur)"
    using cl d b by (simp add: change_dispatch_def Let_def split: result.splits del: length_greater_0_conv)
  show thesis by (rule that [OF cl ev2 b cd])
qed

lemma change_dispatch_svn_logs:
  "filter is_svn_log (events_of (change_dispatch e st ev cur)) =
     filter is_svn_log ev @ map Svn_log (collected_revisions (config st) cur (last_built_revision st))"
proof -
  obtain cfg logs ignore ev1 ev2 f2 and r2 :: "unit result" and ev3 f3 r3 where
    cl: "collect_logs e (config st) cur (last_built_revision st) = (cfg, logs, ignore, ev1)"
    and ev2: "filter is_tool_event ev2 = []"
    and b: "build_dump_logs_and_compact e cfg f2 logs (last_built_revision st) = (ev3, f3, r3)"
    and cd: "change_dispatch e st ev cur =
     (case r2 of
        Raised \<Rightarrow> (st\<lparr>config := cfg\<rparr>, f2, ev @ ev1 @ ev2, Error_caught)
      | Returned u \<Rightarrow>
          if \<not> ignore then
            (case r3 of
               Raised \<Rightarrow> (st\<lparr>config := cfg\<rparr>, f3, ev @ ev1 @ ev2 @ ev3, Error_caught)
             | Returned ok \<Rightarrow>
                 if \<not> ok then (st\<lparr>config := cfg, last_built_revision := cur\<rparr>, f3,
                                ev @ ev1 @ ev2 @ ev3 @ wait cfg, Build_unsuccessful)
                 else finish (st\<lparr>config := cfg\<rparr>) f3 (ev @ ev1 @ ev2 @ ev3) cur)
          else finish (st\<lparr>config := cfg\<rparr>) f2 (ev @ ev1 @ ev2) cur)"
    by (rule change_dispatch_unfold)
  have 1: "filter is_svn_log ev1 = map Svn_log (collected_revisions (config st) cur (last_built_revision st))"
    by (rule collect_logs_events(3) [OF cl])
  have 2: "filter is_svn_log ev2 = []" by (rule filter_tool_empty(3) [OF ev2])
  have 3: "filter is_svn_log ev3 = []" using bdlc_no_svn_log [of e cfg f2 logs "last_built_revision st"] b by simp
  show ?thesis
    by (simp add: cd 1 2 3 finish_def wait_def split: result.splits)
qed

lemma revision_range_eq:
  assumes "0 < max_logs" and "wm < cur"
  shows "revision_range max_logs cur wm = Some (max (wm + 1) (cur - max_logs + 1), cur)"
  using assms by (auto simp: revision_range_def Let_def max_def min_def)

lemma iteration_103_dispatch:
  "iteration env_103 state_100 =
     change_dispatch env_103 state_100 [Kill_unreal, Svn_info, Svn_update, Svn_info, Svn_info] 103"
  by (simp add: iteration_def sync_def svn_update_def svn_revision_def reload_config_def
      cleanup_due_def is_valid_def keywords_valid_def init_watermark_def example_defs)

lemma first_iteration_events:
  "events_of (iteration env_first (initial_state default_config)) =
     [Kill_unreal, Svn_cleanup, Svn_info, Svn_update, Svn_info, Svn_info,
      Play Build_starting, Say Starting_to_build, Kill_unreal,
      Run_uat ''Shipping'' (Some 0),
      Run_7z [''builds'', ''[100] Game (Shipping) TRANSFERING....zip'']
       [''bin'', ''Windows''] (Some 0),
      Rename [''builds'', ''[100] Game (Shipping) TRANSFERING....zip'']
       [''builds'', ''[100] Game (Shipping).zip''],
      Play Build_success, Say (Build_completed ''Shipping''), Sleep 30]"
  by (simp add: model_defs example_defs)

text \<open>
  C2 (as amended). \<open>change_dispatch e st ev cur\<close> is the part of the loop body that runs
  when a change is detected; \<open>st\<close> holds the watermark, already set to the current
  revision when it was unset. When the configured maximum log count is positive and the
  current revision is above the watermark, the revision range is
  \<open>(max (watermark + 1) (current - max_logs + 1), current)\<close>, its bounds satisfy
  \<open>start \<le> end\<close> and \<open>end - start + 1 \<le> max_logs\<close>, and the logs fetched are those of
  the revisions of the range, each once, in ascending order.
\<close>

theorem revision_range_bounds:
  assumes "0 < max_num_relevant_logs (config st)" and "last_built_revision st < cur"
  shows "revision_range (max_num_relevant_logs (config st)) cur (last_built_revision st)
       = Some (max (last_built_revision st + 1) (cur - max_num_relevant_logs (config st) + 1), cur)
     \<and> max (last_built_revision st + 1) (cur - max_num_relevant_logs (config st) + 1) \<le> cur
     \<and> cur - max (last_built_revision st + 1) (cur - max_num_relevant_logs (config st) + 1) + 1
         \<le> max_num_relevant_logs (config st)
     \<and> filter is_svn_log (events_of (change_dispatch e st ev cur))
         = filter is_svn_log ev
           @ map Svn_log [max (last_built_revision st + 1) (cur - max_num_relevant_logs (config st) + 1) .. cur]"
proof -
  note r = revision_range_eq [OF assms]
  from assms have "max (last_built_revision st + 1) (cur - max_num_relevant_logs (config st) + 1) \<le> cur"
    and "cur - max (last_built_revision st + 1) (cur - max_num_relevant_logs (config st) + 1) + 1
         \<le> max_num_relevant_logs (config st)"
    by auto
  with r show ?thesis
    by (simp add: change_dispatch_svn_logs collected_revisions_def)
qed

theorem revision_range_bounds_witness:
  "0 < max_num_relevant_logs (config state_100)
   \<and> last_built_revision state_100 < 103
   \<and> revision_range (max_num_relevant_logs (config state_100)) 103 (last_built_revision state_100)
       = Some (101, 103)
   \<and> filter is_svn_log (events_of (iteration env_103 state_100))
       = [Svn_log 101, Svn_log 102, Svn_log 103]"
proof -
  have h1: "0 < max_num_relevant_logs (config state_100)" by (simp add: example_defs)
  have h2: "last_built_revision state_100 < 103" by (simp add: example_defs)
  from revision_range_bounds [OF h1 h2, of env_103 "[Kill_unreal, Svn_info, Svn_update, Svn_info, Svn_info]"]
    h1 h2
  show ?thesis
    by (simp add: iteration_103_dispatch) (simp add: example_defs upto.simps)
qed

text \<open>
  C2 as stated fails: in the first iteration of a run the update moves the working copy
  from revision 99 to 100, so a change is detected with the maximum log count 10; the
  unset watermark becomes 100, no range is computed and no log is fetched, and the build
  runs.
\<close>

theorem revision_range_counterexample:
  "snd (svn_update env_first) = Returned True
   \<and> loaded_config env_first = Some game_config
   \<and> max_num_relevant_logs game_config = 10
   \<and> filter is_svn_log (events_of (iteration env_first (initial_state default_config))) = []
   \<and> Run_uat ''Shipping'' (Some 0) \<in> set (events_of (iteration env_first (initial_state default_config)))
   \<and> revision_range 10 100 100 = None"
  by (simp add: first_iteration_events)
     (simp add: svn_update_def svn_revision_def revision_range_def example_defs)

subsection \<open>Archive name and watermark\<close>

lemma iteration_103_events:
  "events_of (iteration env_103 state_100) =
     [Kill_unreal, Svn_info, Svn_update, Svn_info, Svn_info, Svn_log 101, Svn_log 102, Svn_log 103,
      Write_text [''bin'', ''Windows'', ''svn_logs.txt''] (final_text [''fix'', ''fix'', ''fix'']),
      Play Build_starting, Say Starting_to_build, Kill_unreal, Run_uat ''Shipping'' (Some 0),
      Write_text [''bin'', ''Windows'', ''svn_logs.txt''] (final_text [''fix'', ''fix'', ''fix'']),
      Run_7z [''builds'', ''[100] Game (Shipping) TRANSFERING....zip''] [''bin'', ''Windows''] (Some 0),
      Rename [''builds'', ''[100] Game (Shipping) TRANSFERING....zip'']
        [''builds'', ''[100] Game (Shipping).zip''],
      Play Build_success, Say (Build_completed ''Shipping''), Sleep 30]"
  by (simp add: model_defs example_defs)

lemma iteration_103_state:
  "state_of (iteration env_103 state_100) =
     \<lparr>config = game_config, last_built_revision = 103, last_cleanup_time = 4000\<rparr>"
  by (simp add: model_defs example_defs)

text \<open>
  C10 (as amended). In every iteration that runs a build, each packaging event (7z run,
  rename, unlink) concerns the archive whose name is built from the watermark as it is
  when the build starts, the project name and the build type: that watermark is the
  previously settled revision when the watermark was set on entry, and the current
  revision when it was unset on entry. The watermark becomes the current revision
  afterwards: when the body ends in the exception handler, as it does when packaging
  raises, the watermark is still the one the build started with.
\<close>

theorem archive_name_embeds_previous_watermark:
  assumes "Run_uat bt x \<in> set (events_of (iteration e st))"
  shows "\<exists>cur. revision_current e = Some cur
     \<and> (\<forall>y \<in> set (events_of (iteration e st)). is_packaging y \<longrightarrow>
           archive_event (config (state_of (iteration e st)))
             (build_name (config (state_of (iteration e st))) (last_built_revision (init_watermark st cur))) y)
     \<and> last_built_revision (state_of (iteration e st)) =
         (if ending_of (iteration e st) = Error_caught
          then last_built_revision (init_watermark st cur) else cur)"
proof -
  from assms obtain st1 ev cur where it: "iteration e st = change_dispatch e st1 ev cur"
    and ev: "filter is_tool_event ev = []" and cur: "revision_current e = Some cur"
    and wm: "last_built_revision st1 = last_built_revision (init_watermark st cur)"
    and u: "Run_uat bt x \<in> set (events_of (change_dispatch e st1 ev cur))"
    by (rule iteration_build)
  from u ev obtain cfg logs ev1 ev2 f2 ev3 f3 r3 where
    cl: "collect_logs e (config st1) cur (last_built_revision st1) = (cfg, logs, False, ev1)"
    and ev2: "filter is_tool_event ev2 = []"
    and b: "build_dump_logs_and_compact e cfg f2 logs (last_built_revision st1) = (ev3, f3, r3)"
    and cd: "change_dispatch e st1 ev cur =
       (case r3 of
          Raised \<Rightarrow> (st1\<lparr>config := cfg\<rparr>, f3, ev @ ev1 @ ev2 @ ev3, Error_caught)
        | Returned ok \<Rightarrow>
            if \<not> ok then (st1\<lparr>config := cfg, last_built_revision := cur\<rparr>, f3,
                           ev @ ev1 @ ev2 @ ev3 @ wait cfg, Build_unsuccessful)
            else finish (st1\<lparr>config := cfg\<rparr>) f3 (ev @ ev1 @ ev2 @ ev3) cur)"
    by (rule change_dispatch_build)
  have c: "config (state_of (change_dispatch e st1 ev cur)) = cfg"
    by (simp add: cd finish_def split: result.splits)
  have w: "last_built_revision (state_of (change_dispatch e st1 ev cur)) =
         (if ending_of (change_dispatch e st1 ev cur) = Error_caught
          then last_built_revision st1 else cur)"
    by (simp add: cd finish_def split: result.splits)
  have p: "archive_event cfg (build_name cfg (last_built_revision st1)) y"
    if y: "y \<in> set (events_of (change_dispatch e st1 ev cur))" and k: "is_packaging y" for y
  proof -
    have t: "is_tool_event y" using k by (rule tool_event_kinds)
    have n: "y \<notin> set ev" "y \<notin> set ev1" "y \<notin> set ev2"
      using k filter_tool_empty(2) [OF ev] filter_tool_empty(2) [OF ev2] collect_logs_events(2) [OF cl]
      by (auto simp: filter_empty_conv)
    with y k have "y \<in> set ev3"
      by (auto simp: cd finish_def wait_def split: result.splits if_splits)
    with b have "y \<in> set (fst (build_dump_logs_and_compact e cfg f2 logs (last_built_revision st1)))"
      by simp
    from bdlc_events [OF this t] k show ?thesis by (cases y) simp_all
  qed
  from c w p cur show ?thesis by (simp add: it wm)
qed

theorem archive_name_embeds_previous_watermark_witness:
  "Run_uat ''Shipping'' (Some 0) \<in> set (events_of (iteration env_103 state_100))
   \<and> revision_current env_103 = Some 103
   \<and> last_built_revision (init_watermark state_100 103) = 100
   \<and> Run_7z [''builds'', ''[100] Game (Shipping) TRANSFERING....zip''] [''bin'', ''Windows''] (Some 0)
       \<in> set (events_of (iteration env_103 state_100))
   \<and> build_name game_config 100 = ''[100] Game (Shipping)''
   \<and> last_built_revision (state_of (iteration env_103 state_100)) = 103"
proof -
  have h: "Run_uat ''Shipping'' (Some 0) \<in> set (events_of (iteration env_103 state_100))"
    by (simp add: iteration_103_events)
  from archive_name_embeds_previous_watermark [OF h] h show ?thesis
    by (simp add: iteration_103_events iteration_103_state)
       (simp add: model_defs example_defs)
qed

text \<open>
  C10 as stated fails: in the first iteration of a run the watermark is unset, the update
  moves the working copy to revision 100, and the archive of the build carries the
  current revision 100 in its name.
\<close>

theorem archive_name_counterexample:
  "last_built_revision (initial_state default_config) = -1
   \<and> revision_current env_first = Some 100
   \<and> Run_uat ''Shipping'' (Some 0) \<in> set (events_of (iteration env_first (initial_state default_config)))
   \<and> Run_7z [''builds'', ''[100] Game (Shipping) TRANSFERING....zip''] [''bin'', ''Windows''] (Some 0)
       \<in> set (events_of (iteration env_first (initial_state default_config)))
   \<and> build_name game_config 100 = ''[100] Game (Shipping)''"
  by (simp add: first_iteration_events) (simp add: model_defs example_defs)

subsection \<open>The ignore-build keyword\<close>

lemma iteration_log:
  assumes "Svn_log r \<in> set (events_of (iteration e st))"
  obtains st1 ev cur where
    "iteration e st = change_dispatch e st1 ev cur"
    "filter is_tool_event ev = []"
    "revision_current e = Some cur"
    "reload_config e (config st) = Some (config st1)"
    "Svn_log r \<in> set (events_of (change_dispatch e st1 ev cur))"
proof -
  have "\<exists>y \<in> set (events_of (iteration e st)). is_tool_event y"
    using assms by (rule bexI [rotated]) simp
  then have "filter is_tool_event (events_of (iteration e st)) \<noteq> []"
    by (simp add: filter_empty_conv)
  with iteration_cases [of e st] obtain st1 ev cur where
    *: "iteration e st = change_dispatch e st1 ev cur"
    "filter is_tool_event ev = []"
    "revision_current e = Some cur"
    "reload_config e (config st) = Some (config st1)"
    by blast
  from assms *(1) have 5: "Svn_log r \<in> set (events_of (change_dispatch e st1 ev cur))" by simp
  show thesis by (rule that [OF *(1) *(2) *(3) *(4) 5])
qed

lemma build_find_build_type [simp]:
  "build_find (cfg\<lparr>uat_build_type := b\<rparr>) = build_find cfg"
  by (simp add: build_find_def)

lemma change_dispatch_ignore:
  assumes r: "r \<in> set (collected_revisions (config st) cur (last_built_revision st))"
      and k: "sublist (ignore_build (config st)) (svn_log_out e r)"
      and d: "ignore_build (config st) \<noteq> make_dev_build (config st)"
      and ev: "filter is_tool_event ev = []"
  shows "filter is_run_uat (events_of (change_dispatch e st ev cur)) = []
     \<and> Say Ignoring_build \<in> set (events_of (change_dispatch e st ev cur))
     \<and> (write_text (fs_start e) (path_join (build_find (config st)) ''svn_logs.txt'') \<noteq> None \<longrightarrow>
          last_built_revision (state_of (change_dispatch e st ev cur)) = cur
          \<and> ending_of (change_dispatch e st ev cur) = Body_finished)"
proof -
  let ?revs = "collected_revisions (config st) cur (last_built_revision st)"
  let ?found = "concat (map (log_find_commands (config st)) (map (svn_log_out e) ?revs))"
  let ?n = "length (filter (\<lambda>c. c = ignore_build (config st) \<and> c \<noteq> make_dev_build (config st)) ?found)"
  from r k have f: "found_in_logs e (config st) cur (last_built_revision st) (ignore_build (config st))"
    by (auto simp: found_in_logs_def list_ex_iff)
  from r have ne: "?revs \<noteq> []" by auto
  have "ignore_build (config st) \<in> set ?found"
    using r k by (subst found_commands_set) (auto simp: all_commands_def list_ex_iff)
  with d have "filter (\<lambda>c. c = ignore_build (config st) \<and> c \<noteq> make_dev_build (config st)) ?found \<noteq> []"
    by (auto simp: filter_empty_conv simp del: set_concat)
  then have n: "?n \<noteq> 0" by simp
  have m: "filter is_run_uat (map Svn_log rs) = []" for rs
    by (induction rs) simp_all
  show ?thesis
  proof (cases "write_text (fs_start e) (path_join (build_find (config st)) ''svn_logs.txt'')")
    case None
    with f d ne n filter_tool_empty(1) [OF ev] show ?thesis
      by (simp add: change_dispatch_def collect_logs_eq build_dump_log_file_def
          Let_def m del: set_concat)
  next
    case (Some f2)
    with f d ne n filter_tool_empty(1) [OF ev] show ?thesis
      by (simp add: change_dispatch_def collect_logs_eq build_dump_log_file_def finish_def wait_def
          Let_def m del: set_concat)
  qed
qed

lemma ignore_fresh_outcome:
  "iteration env_ignore_fresh state_100 =
    (state_100, fs_fresh,
     [Kill_unreal, Svn_info, Svn_update, Svn_info, Svn_info, Svn_log 101, Svn_log 102, Svn_log 103,
      Say Ignoring_build], Error_caught)"
  by (simp add: model_defs example_defs)

lemma ignore_events:
  "events_of (iteration env_ignore state_100) =
     [Kill_unreal, Svn_info, Svn_update, Svn_info, Svn_info, Svn_log 101, Svn_log 102, Svn_log 103,
      Say Ignoring_build,
      Write_text [''bin'', ''Windows'', ''svn_logs.txt'']
        (final_text [''fix'', ''tidy up #ignorebuild'', ''fix'']),
      Play Build_success, Say (Build_completed ''Shipping''), Sleep 30]"
  by (simp add: model_defs example_defs)

lemma skip_events:
  "events_of (iteration env_skip state_100) =
     [Kill_unreal, Svn_info, Svn_update, Svn_info, Svn_info, Svn_log 101, Svn_log 102, Svn_log 103,
      Write_text [''bin'', ''Windows'', ''svn_logs.txt'']
        (final_text [''tidy up #skip'', ''tidy up #skip'', ''tidy up #skip'']),
      Play Build_starting, Say Starting_to_build, Kill_unreal, Run_uat ''Development'' (Some 0),
      Write_text [''bin'', ''Windows'', ''svn_logs.txt'']
        (final_text [''tidy up #skip'', ''tidy up #skip'', ''tidy up #skip'']),
      Run_7z [''builds'', ''[100] Game (Development) TRANSFERING....zip''] [''bin'', ''Windows''] (Some 0),
      Rename [''builds'', ''[100] Game (Development) TRANSFERING....zip'']
        [''builds'', ''[100] Game (Development).zip''],
      Play Build_success, Say (Build_completed ''Development''), Sleep 30]"
  by (simp add: model_defs example_defs)

text \<open>
  C6 (as amended). In every iteration that collects a log containing the ignore-build
  keyword of the configuration in effect, where that keyword is not also the dev-build
  keyword, the build tool is not invoked and the ignoring cue is spoken; and when the dump
  of the collected logs into the build output directory succeeds, the watermark becomes
  the current revision and the body runs to its end.
\<close>

theorem ignore_build_skips_build:
  assumes "reload_config e (config st) = Some cfg"
      and "Svn_log r \<in> set (events_of (iteration e st))"
      and "sublist (ignore_build cfg) (svn_log_out e r)"
      and "ignore_build cfg \<noteq> make_dev_build cfg"
  shows "filter is_run_uat (events_of (iteration e st)) = []
     \<and> Say Ignoring_build \<in> set (events_of (iteration e st))
     \<and> (write_text (fs_start e) (path_join (build_find cfg) ''svn_logs.txt'') \<noteq> None \<longrightarrow>
          revision_current e = Some (last_built_revision (state_of (iteration e st)))
          \<and> ending_of (iteration e st) = Body_finished)"
proof -
  from assms(2) obtain st1 ev cur where it: "iteration e st = change_dispatch e st1 ev cur"
    and ev: "filter is_tool_event ev = []" and cur: "revision_current e = Some cur"
    and c: "reload_config e (config st) = Some (config st1)"
    and l: "Svn_log r \<in> set (events_of (change_dispatch e st1 ev cur))"
    by (rule iteration_log)
  from c assms(1) have cfg: "config st1 = cfg" by simp
  from l have "Svn_log r \<in> set (filter is_svn_log (events_of (change_dispatch e st1 ev cur)))"
    by simp
  then have r: "r \<in> set (collected_revisions (config st1) cur (last_built_revision st1))"
    using filter_tool_empty(3) [OF ev] by (auto simp: change_dispatch_svn_logs)
  from change_dispatch_ignore [OF r _ _ ev, of e] assms(3,4) cfg it cur show ?thesis
    by simp
qed

theorem ignore_build_skips_build_witness:
  "reload_config env_ignore (config state_100) = Some game_config
   \<and> Svn_log 102 \<in> set (events_of (iteration env_ignore state_100))
   \<and> sublist (ignore_build game_config) (svn_log_out env_ignore 102)
   \<and> ignore_build game_config \<noteq> make_dev_build game_config
   \<and> write_text (fs_start env_ignore) (path_join (build_find game_config) ''svn_logs.txt'') \<noteq> None
   \<and> filter is_run_uat (events_of (iteration env_ignore state_100)) = []
   \<and> Say Ignoring_build \<in> set (events_of (iteration env_ignore state_100))
   \<and> revision_current env_ignore = Some (last_built_revision (state_of (iteration env_ignore state_100)))
   \<and> ending_of (iteration env_ignore state_100) = Body_finished"
proof -
  have h1: "reload_config env_ignore (config state_100) = Some game_config"
    by (simp add: reload_config_def is_valid_def keywords_valid_def example_defs)
  have h2: "Svn_log 102 \<in> set (events_of (iteration env_ignore state_100))"
    by (simp add: ignore_events)
  have h3: "sublist (ignore_build game_config) (svn_log_out env_ignore 102)"
    by (simp add: example_defs str_find_sublist [symmetric] str_find_def)
  have h4: "ignore_build game_config \<noteq> make_dev_build game_config"
    by (simp add: example_defs)
  have h5: "write_text (fs_start env_ignore) (path_join (build_find game_config) ''svn_logs.txt'') \<noteq> None"
    by (simp add: write_text_def is_dir_def path_parent_def path_join_def build_find_def example_defs)
  from ignore_build_skips_build [OF h1 h2 h3 h4] h1 h2 h3 h4 h5 show ?thesis by simp
qed

text \<open>
  C6 as stated fails in two ways. Without a build output directory the dump of the logs
  raises after the cue, and the watermark stays at 100 though the current revision is
  103. And with one string configured for both keywords the keyword counts as the
  dev-build keyword, and the build tool is invoked.
\<close>

theorem ignore_build_counterexample:
  "Svn_log 102 \<in> set (events_of (iteration env_ignore_fresh state_100))
   \<and> sublist (ignore_build game_config) (svn_log_out env_ignore_fresh 102)
   \<and> revision_current env_ignore_fresh = Some 103
   \<and> last_built_revision (state_of (iteration env_ignore_fresh state_100)) = 100
   \<and> Svn_log 102 \<in> set (events_of (iteration env_skip state_100))
   \<and> sublist (ignore_build skip_config) (svn_log_out env_skip 102)
   \<and> Run_uat ''Development'' (Some 0) \<in> set (events_of (iteration env_skip state_100))"
  by (simp add: ignore_fresh_outcome skip_events)
     (simp add: example_defs str_find_sublist [symmetric] str_find_def)

subsection \<open>The dev-build keyword\<close>







subsection \<open>Keyword scan of a concatenation\<close>

lemma straddles_iff:
  "straddles k a b = (\<exists>k1 k2. k = k1 @ k2 \<and> k1 \<noteq> [] \<and> k2 \<noteq> [] \<and> suffix k1 a \<and> prefix k2 b)"
proof
  assume "straddles k a b"
  then obtain n where n: "1 \<le> n" "n < length k" "suffix (take n k) a" "prefix (drop n k) b"
    by (auto simp: straddles_def list_ex_iff)
  then have "k = take n k @ drop n k \<and> take n k \<noteq> [] \<and> drop n k \<noteq> []" by auto
  with n show "\<exists>k1 k2. k = k1 @ k2 \<and> k1 \<noteq> [] \<and> k2 \<noteq> [] \<and> suffix k1 a \<and> prefix k2 b" by blast
next
  assume "\<exists>k1 k2. k = k1 @ k2 \<and> k1 \<noteq> [] \<and> k2 \<noteq> [] \<and> suffix k1 a \<and> prefix k2 b"
  then obtain k1 k2 where k: "k = k1 @ k2" "k1 \<noteq> []" "k2 \<noteq> []" "suffix k1 a" "prefix k2 b" by blast
  then have "1 \<le> length k1" "length k1 < length k" by (simp_all add: Suc_le_eq)
  then have "length k1 \<in> set [1..<length k]" by simp
  moreover from k have "suffix (take (length k1) k) a \<and> prefix (drop (length k1) k) b" by simp
  ultimately show "straddles k a b" unfolding straddles_def list_ex_iff by blast
qed

lemma sublist_append_straddles:
  "sublist k (a @ b) = (sublist k a \<or> sublist k b \<or> straddles k a b)"
proof -
  have "sublist k a \<or> sublist k b \<or> straddles k a b"
    if "\<exists>k1 k2. k = k1 @ k2 \<and> suffix k1 a \<and> prefix k2 b"
  proof -
    from that obtain k1 k2 where k: "k = k1 @ k2" "suffix k1 a" "prefix k2 b" by blast
    show ?thesis
    proof (cases "k1 = [] \<or> k2 = []")
      case True
      with k show ?thesis by auto
    next
      case False
      with k show ?thesis by (auto simp: straddles_iff)
    qed
  qed
  then show ?thesis by (auto simp: sublist_append straddles_iff)
qed

text \<open>
  C5 (as amended). Scanning the concatenation of two log texts finds every keyword that
  scanning either text alone finds, and besides these exactly the keywords that straddle
  the boundary between the two texts. The scan is a function of the keywords and the text
  alone.
\<close>

theorem scan_concat:
  "set (log_find_commands cfg (a @ b)) =
     set (log_find_commands cfg a) \<union> set (log_find_commands cfg b)
       \<union> {k \<in> set (all_commands cfg). straddles k a b}"
  by (auto simp: set_log_find_commands sublist_append_straddles)

theorem scan_concat_witness:
  "set (log_find_commands default_config (''see #ignorebuild'' @ '' now'')) =
     set (log_find_commands default_config ''see #ignorebuild'')
       \<union> set (log_find_commands default_config '' now'')
       \<union> {k \<in> set (all_commands default_config). straddles k ''see #ignorebuild'' '' now''}"
  using scan_concat [of default_config "''see #ignorebuild''" "'' now''"] by simp

text \<open>
  C5 as stated fails: a keyword cut in two by the boundary is found in the concatenation
  and in neither part.
\<close>

theorem scan_concat_counterexample:
  "set (log_find_commands default_config (''#ignore'' @ ''build''))
     \<noteq> set (log_find_commands default_config ''#ignore'')
         \<union> set (log_find_commands default_config ''build'')"
  by (simp add: log_find_commands_def all_commands_def default_config_def str_find_def)

end
